theory Spec2Isabelle
  imports Main "HOL-Library.AList"
begin

section \<open>Go values used by the runner\<close>

text \<open>
  Strings are lists of characters; one \<^typ>\<open>char\<close> stands for one rune of the Go string.
  An environment (Go's \<open>map[string]string\<close>) is a partial map. A call that panics in Go
  is the value \<open>Panic\<close>.
\<close>

type_synonym environ = "string \<rightharpoonup> string"

datatype 'a outcome = Panic | Return 'a

text \<open>The helpers of consul-template's \<open>config\<close> package on optional (pointer) fields.\<close>

definition BoolVal :: "bool option \<Rightarrow> bool" where
  "BoolVal b = (case b of None \<Rightarrow> False | Some v \<Rightarrow> v)"

definition StringVal :: "string option \<Rightarrow> string" where
  "StringVal s = (case s of None \<Rightarrow> [] | Some v \<Rightarrow> v)"

definition StringPresent :: "string option \<Rightarrow> bool" where
  "StringPresent s = (case s of None \<Rightarrow> False | Some v \<Rightarrow> v \<noteq> [])"

text \<open>\<open>InvalidRegexp = [^a-zA-Z0-9_]\<close> and \<open>InvalidRegexp.ReplaceAllString(s, "_")\<close>.\<close>

definition validChar :: "char \<Rightarrow> bool" where
  "validChar c \<longleftrightarrow>
     c \<in> set ''abcdefghijklmnopqrstuvwxyzABCDEFGHIJKLMNOPQRSTUVWXYZ0123456789_''"

definition replaceInvalid :: "string \<Rightarrow> string" where
  "replaceInvalid s = map (\<lambda>c. if validChar c then c else CHR ''_'') s"

text \<open>\<open>strings.SplitN(v, "=", 2)\<close>: one element when \<open>v\<close> has no \<open>=\<close>, two otherwise.\<close>

definition splitEq :: "string \<Rightarrow> string list" where
  "splitEq v =
     (if CHR ''='' \<in> set v
      then [takeWhile (\<lambda>c. c \<noteq> CHR ''='') v, tl (dropWhile (\<lambda>c. c \<noteq> CHR ''='') v)]
      else [v])"

text \<open>
  The loop \<open>for _, v := range xs { list := strings.SplitN(v, "=", 2); m[list[0]] = list[1] }\<close>
  of \<open>Run\<close> (over \<open>os.Environ()\<close>) and of \<open>applyConfigEnv\<close> (over \<open>exec.env.custom\<close>).
  \<open>list[1]\<close> is out of range, a panic, for an entry without \<open>=\<close>.
\<close>

fun assignPairs :: "environ \<Rightarrow> string list \<Rightarrow> environ outcome" where
  "assignPairs m [] = Return m"
| "assignPairs m (v # vs) =
     (case splitEq v of
        [k, x] \<Rightarrow> assignPairs (m(k \<mapsto> x)) vs
      | _ \<Rightarrow> Panic)"

section \<open>Configuration\<close>

record KeyFormat =
  Name :: "string option"
  KFormat :: "string option"

record PrefixConfig =
  Format :: "string option"
  NoPrefix :: "bool option"
  Path :: "string option"
  Keys :: "KeyFormat list option"

record ServiceConfig =
  Query :: "string option"
  FormatId :: "string option"
  FormatName :: "string option"
  FormatAddress :: "string option"
  FormatTag :: "string option"
  FormatPort :: "string option"

record EnvConfig =
  Allowlist :: "string list"
  AllowlistDeprecated :: "string list"
  Denylist :: "string list"
  DenylistDeprecated :: "string list"
  Custom :: "string list"
  EnvPristine :: "bool option"

record WaitConfig =
  Enabled :: "bool option"
  Min :: "int option"
  Max :: "int option"

record Config =
  ExecEnv :: EnvConfig
  Pristine :: "bool option"
  Sanitize :: "bool option"
  Upcase :: "bool option"
  Wait :: WaitConfig
  Prefixes :: "PrefixConfig list"
  Services :: "ServiceConfig list"
  Secrets :: "PrefixConfig list"

section \<open>External collaborators\<close>

text \<open>
  The template engine (\<open>html/template\<close>), the glob matcher (\<open>filepath.Match\<close>), the
  Unicode-aware functions \<open>strings.ToUpper\<close> and \<open>strings.TrimSpace\<close>, the order in which
  Go's \<open>range\<close> visits the entries of a map, and the child process library are not code of
  this repository. They are parameters of the model, so every theorem below holds
  whatever they do.
\<close>

datatype tmpl_result = ParseFails | ExecFails | Renders string

datatype jvalue = JNil | JString string | JMap "(string \<times> jvalue) list" | JOther

datatype error =
    ErrConvertKeypair string
  | ErrConvertSecret string
  | ErrConvertService string
  | ErrMissingDependency string
  | ErrTemplateExec
  | ErrUnknownDependency string
  | ErrParsingCommand
  | ErrSpawningChild
  | ErrStartingChild
  | ErrDecodingConfig
  | ErrConvertingConfig
  | ErrDecoderCreation
  | ErrMapstructureDecode

record externals =
  fmtTemplate :: "string \<Rightarrow> string \<Rightarrow> tmpl_result"
  pathTemplate :: "string list \<Rightarrow> string \<Rightarrow> tmpl_result"
  serviceTemplate :: "string \<Rightarrow> string \<Rightarrow> string \<Rightarrow> tmpl_result"
  globMatch :: "string \<Rightarrow> string \<Rightarrow> bool"
  toUpper :: "string \<Rightarrow> string"
  trimSpace :: "string \<Rightarrow> string"
  rangeSecret :: "nat \<Rightarrow> (string \<times> jvalue) list \<Rightarrow> (string \<times> jvalue) list"
  rangeKV :: "nat \<Rightarrow> nat \<Rightarrow> (string \<times> string) list \<Rightarrow> (string \<times> string) list"
  startChild :: "environ \<Rightarrow> error option"
  kvListQueryId :: "string \<Rightarrow> error + string"
  catalogServiceQueryId :: "string \<Rightarrow> error + string"
  vaultReadQueryId :: "string \<Rightarrow> error + string"

section \<open>Templates\<close>

text \<open>
  \<open>applyFormatTemplate\<close>, \<open>applyPathTemplate\<close> and \<open>applyServiceTemplate\<close>: a template that
  does not parse gives \<open>("", nil)\<close>, one that does not execute gives \<open>("", err)\<close>.
\<close>

definition applyFormatTemplate :: "externals \<Rightarrow> string \<Rightarrow> string \<Rightarrow> error + string" where
  "applyFormatTemplate ext contents key =
     (case fmtTemplate ext contents key of
        ParseFails \<Rightarrow> Inr []
      | ExecFails \<Rightarrow> Inl ErrTemplateExec
      | Renders s \<Rightarrow> Inr s)"

definition applyPathTemplate :: "externals \<Rightarrow> string list \<Rightarrow> string \<Rightarrow> error + string" where
  "applyPathTemplate ext osenv contents =
     (case pathTemplate ext osenv contents of
        ParseFails \<Rightarrow> Inr []
      | ExecFails \<Rightarrow> Inl ErrTemplateExec
      | Renders s \<Rightarrow> Inr s)"

definition applyServiceTemplate ::
  "externals \<Rightarrow> string \<Rightarrow> string \<Rightarrow> string \<Rightarrow> error + string" where
  "applyServiceTemplate ext contents service key =
     (case serviceTemplate ext contents service key of
        ParseFails \<Rightarrow> Inr []
      | ExecFails \<Rightarrow> Inl ErrTemplateExec
      | Renders s \<Rightarrow> Inr s)"

section \<open>Allowlist, denylist and custom variables\<close>

fun anyGlobMatch :: "(string \<Rightarrow> string \<Rightarrow> bool) \<Rightarrow> string \<Rightarrow> string list \<Rightarrow> bool" where
  "anyGlobMatch glob s [] = False"
| "anyGlobMatch glob s (pattern # patterns) =
     (if glob pattern s then True else anyGlobMatch glob s patterns)"

definition combineLists :: "string list \<Rightarrow> string list \<Rightarrow> string list" where
  "combineLists a b = a @ filter (\<lambda>v. v \<notin> set a) b"

definition applyConfigEnv ::
  "(string \<Rightarrow> string \<Rightarrow> bool) \<Rightarrow> EnvConfig \<Rightarrow> environ \<Rightarrow> environ outcome" where
  "applyConfigEnv glob ec env =
     (case assignPairs Map.empty (Custom ec) of
        Panic \<Rightarrow> Panic
      | Return custom \<Rightarrow>
          if BoolVal (EnvPristine ec) then
            (if custom \<noteq> Map.empty then Return custom else Return Map.empty)
          else
            let keys = dom env;
                allowlist = combineLists (Allowlist ec) (AllowlistDeprecated ec);
                keys1 = (if length allowlist > 0
                         then {k \<in> keys. anyGlobMatch glob k allowlist} else keys);
                denylist = combineLists (Denylist ec) (DenylistDeprecated ec);
                keys2 = (if length denylist > 0
                         then {k \<in> keys1. \<not> anyGlobMatch glob k denylist} else keys1)
            in Return ((env |` keys2) ++ custom))"

section \<open>The runner\<close>

text \<open>
  A dependency carries the identity string that its \<open>String()\<close> method returns. The data
  received for it is an \<open>interface{}\<close>: a list of key pairs, a secret (its \<open>Data\<close> map),
  a list of catalog services, or anything else. A Go \<open>map[string]interface{}\<close> is the list
  of its entries (distinct keys); \<open>rangeSecret ext i\<close> gives the order in which the
  \<open>range\<close> loop over the data of the \<open>i\<close>-th dependency visits them, \<open>rangeKV ext i j\<close>
  the one for the \<open>j\<close>-th service of the \<open>i\<close>-th dependency.
\<close>

datatype dependency =
    KVListQuery string
  | VaultReadQuery string
  | CatalogServiceQuery string
  | OtherQuery string

fun depString :: "dependency \<Rightarrow> string" where
  "depString (KVListQuery s) = s"
| "depString (VaultReadQuery s) = s"
| "depString (CatalogServiceQuery s) = s"
| "depString (OtherQuery s) = s"

record CatalogService =
  ServiceID :: string
  ServiceName :: string
  ServiceAddress :: string
  ServiceTags :: "string list"
  ServicePort :: int

datatype payload =
    KeyPairs "(string \<times> string) list"
  | SecretData "(string \<times> jvalue) list"
  | CatalogServices "CatalogService list"
  | OtherData

text \<open>
  The effects of \<open>Run\<close> on the child process are recorded in \<open>trace\<close>, a field the Go
  struct does not have. \<open>env\<close> is \<open>None\<close> for the nil map a new runner starts with,
  \<open>child\<close> holds the environment the current child was started with, and a timer is the
  time at which its channel fires.
\<close>

datatype effect = ChildStopped | ChildStarted environ | ExitCodeSent int

record runner =
  config :: Config
  configPrefixMap :: "string \<rightharpoonup> PrefixConfig"
  configServiceMap :: "string \<rightharpoonup> ServiceConfig"
  data :: "string \<rightharpoonup> payload"
  dependencies :: "dependency list"
  env :: "environ option"
  once :: bool
  child :: "environ option"
  minTimer :: "int option"
  maxTimer :: "int option"
  trace :: "effect list"

definition Receive :: "runner \<Rightarrow> dependency \<Rightarrow> payload \<Rightarrow> runner" where
  "Receive r d dat = r\<lparr>data := (data r)(depString d \<mapsto> dat)\<rparr>"

subsection \<open>Key/value prefixes\<close>

text \<open>\<open>strings.TrimSpace(key) == ""\<close>: the test that skips a pair.\<close>

definition blankKey :: "externals \<Rightarrow> string \<Rightarrow> bool" where
  "blankKey ext key \<longleftrightarrow> trimSpace ext key = []"

text \<open>Sanitize, then upcase: the end of the loop bodies of \<open>appendPrefixes\<close> and \<open>appendSecrets\<close>.\<close>

definition finishKey :: "externals \<Rightarrow> Config \<Rightarrow> string \<Rightarrow> string" where
  "finishKey ext cfg key =
     (let key1 = (if BoolVal (Sanitize cfg) then replaceInvalid key else key)
      in if BoolVal (Upcase cfg) then toUpper ext key1 else key1)"

text \<open>The key of one pair in \<open>appendPrefixes\<close>: prefix, format, sanitize, upcase.\<close>

definition kvKey ::
  "externals \<Rightarrow> runner \<Rightarrow> dependency \<Rightarrow> PrefixConfig \<Rightarrow> string \<Rightarrow> error + string" where
  "kvKey ext r d cp key =
     (case (if NoPrefix cp \<noteq> None \<and> \<not> BoolVal (NoPrefix cp)
            then (case configPrefixMap r (depString d) of
                    None \<Rightarrow> Inl (ErrMissingDependency (depString d))
                  | Some pc \<Rightarrow> Inr (replaceInvalid (StringVal (Path pc)) @ ''_'' @ key))
            else Inr key) of
        Inl err \<Rightarrow> Inl err
      | Inr key1 \<Rightarrow>
          (case (if StringPresent (Format cp)
                 then applyFormatTemplate ext (StringVal (Format cp)) key1
                 else Inr key1) of
             Inl err \<Rightarrow> Inl err
           | Inr key2 \<Rightarrow> Inr (finishKey ext (config r) key2)))"

text \<open>
  The loop of \<open>appendPrefixes\<close>. The map is updated in place, so the pairs written before
  an error stay in it. \<open>cp\<close> is nil when the dependency has no entry in
  \<open>configPrefixMap\<close>; \<open>cp.NoPrefix\<close> then panics.
\<close>

fun appendPrefixesLoop ::
  "externals \<Rightarrow> runner \<Rightarrow> dependency \<Rightarrow> PrefixConfig option \<Rightarrow> (string \<times> string) list \<Rightarrow>
   environ \<Rightarrow> (error option \<times> environ) outcome" where
  "appendPrefixesLoop ext r d cp [] e = Return (None, e)"
| "appendPrefixesLoop ext r d cp ((key, v) # pairs) e =
     (if blankKey ext key then appendPrefixesLoop ext r d cp pairs e
      else case cp of
             None \<Rightarrow> Panic
           | Some c \<Rightarrow>
               (case kvKey ext r d c key of
                  Inl err \<Rightarrow> Return (Some err, e)
                | Inr k \<Rightarrow> appendPrefixesLoop ext r d cp pairs (e(k \<mapsto> v))))"

definition appendPrefixes ::
  "externals \<Rightarrow> runner \<Rightarrow> environ \<Rightarrow> dependency \<Rightarrow> payload \<Rightarrow>
   (error option \<times> environ) outcome" where
  "appendPrefixes ext r e d dat =
     (case dat of
        KeyPairs typed \<Rightarrow>
          appendPrefixesLoop ext r d (configPrefixMap r (depString d)) typed e
      | _ \<Rightarrow> Return (Some (ErrConvertKeypair (depString d)), e))"

subsection \<open>Secrets\<close>

text \<open>Indexing a Go map: the zero value nil for a missing key.\<close>

definition index :: "(string \<times> jvalue) list \<Rightarrow> string \<Rightarrow> jvalue" where
  "index m k = (case map_of m k of None \<Rightarrow> JNil | Some v \<Rightarrow> v)"

text \<open>
  \<open>data["metadata"].(map[string]interface{})\<close> is an unchecked type assertion: it panics
  when the value is not a string-keyed map.
\<close>

definition isVaultKv2 :: "(string \<times> jvalue) list \<Rightarrow> bool outcome" where
  "isVaultKv2 dt =
     (if index dt ''metadata'' \<noteq> JNil then
        (case index dt ''metadata'' of
           JMap metadata \<Rightarrow> Return (index metadata ''version'' \<noteq> JNil)
         | _ \<Rightarrow> Panic)
      else Return False)"

text \<open>The value map of \<open>appendSecrets\<close>: the secret's data, or its inner \<open>data\<close> for KV-v2.\<close>

definition secretValueMap :: "(string \<times> jvalue) list \<Rightarrow> (string \<times> jvalue) list outcome" where
  "secretValueMap dt =
     (case isVaultKv2 dt of
        Panic \<Rightarrow> Panic
      | Return kv2 \<Rightarrow>
          if kv2 then
            (if index dt ''data'' = JNil then Return []
             else (case index dt ''data'' of
                     JMap inner \<Rightarrow> Return inner
                   | _ \<Rightarrow> Panic))
          else Return dt)"

text \<open>\<open>keyFormats[*v.Name] = append(keyFormats[*v.Name], v)\<close> for each entry of \<open>cp.Keys\<close>.\<close>

fun populateKeyFormats ::
  "KeyFormat list \<Rightarrow> (string \<rightharpoonup> KeyFormat list) \<Rightarrow> (string \<rightharpoonup> KeyFormat list) outcome" where
  "populateKeyFormats [] m = Return m"
| "populateKeyFormats (v # vs) m =
     (case Name v of
        None \<Rightarrow> Panic
      | Some n \<Rightarrow>
          populateKeyFormats vs (m(n \<mapsto> (case m n of None \<Rightarrow> [] | Some fs \<Rightarrow> fs) @ [v])))"

text \<open>The formats listed for one key, applied to the original key.\<close>

fun applyKeyFormats :: "externals \<Rightarrow> string \<Rightarrow> KeyFormat list \<Rightarrow> error + string list" where
  "applyKeyFormats ext originalKey [] = Inr []"
| "applyKeyFormats ext originalKey (f # fs) =
     (if StringPresent (KFormat f) then
        (case applyFormatTemplate ext (StringVal (KFormat f)) originalKey of
           Inl err \<Rightarrow> Inl err
         | Inr key \<Rightarrow>
             (case applyKeyFormats ext originalKey fs of
                Inl err \<Rightarrow> Inl err
              | Inr ks \<Rightarrow> Inr (key # ks)))
      else applyKeyFormats ext originalKey fs)"

text \<open>
  The keys under which one entry is emitted: \<open>Inr None\<close> when the entry is skipped because
  it is not listed in the configuration.
\<close>

definition perKeyKeys ::
  "externals \<Rightarrow> bool \<Rightarrow> (string \<rightharpoonup> KeyFormat list) \<Rightarrow> string \<Rightarrow> error + string list option" where
  "perKeyKeys ext applyPerKeyFormat keyFormats originalKey =
     (if applyPerKeyFormat then
        (case keyFormats originalKey of
           None \<Rightarrow> Inr None
         | Some keyFormat \<Rightarrow>
             (case applyKeyFormats ext originalKey keyFormat of
                Inl err \<Rightarrow> Inl err
              | Inr appliedFormats \<Rightarrow>
                  Inr (Some (if length appliedFormats > 0 then appliedFormats
                             else [originalKey]))))
      else Inr (Some [originalKey]))"

text \<open>The final key of one emitted key in \<open>appendSecrets\<close>: prefix, format, sanitize, upcase.\<close>

definition secretKey ::
  "externals \<Rightarrow> string list \<Rightarrow> runner \<Rightarrow> dependency \<Rightarrow> PrefixConfig \<Rightarrow> string \<Rightarrow>
   error + string" where
  "secretKey ext osenv r d cp key =
     (case (if NoPrefix cp = None \<or> \<not> BoolVal (NoPrefix cp)
            then (case configPrefixMap r (depString d) of
                    None \<Rightarrow> Inl (ErrMissingDependency (depString d))
                  | Some pc \<Rightarrow>
                      (case applyPathTemplate ext osenv (StringVal (Path pc)) of
                         Inl err \<Rightarrow> Inl err
                       | Inr path \<Rightarrow> Inr (replaceInvalid path @ ''_'' @ key)))
            else Inr key) of
        Inl err \<Rightarrow> Inl err
      | Inr key1 \<Rightarrow>
          (case (if StringPresent (Format cp)
                 then applyFormatTemplate ext (StringVal (Format cp)) key1
                 else Inr key1) of
             Inl err \<Rightarrow> Inl err
           | Inr key2 \<Rightarrow> Inr (finishKey ext (config r) key2)))"

text \<open>The loop \<open>for i := range keys\<close>: a value that is not a string is skipped.\<close>

fun secretKeysLoop ::
  "externals \<Rightarrow> string list \<Rightarrow> runner \<Rightarrow> dependency \<Rightarrow> PrefixConfig \<Rightarrow> jvalue \<Rightarrow>
   string list \<Rightarrow> environ \<Rightarrow> error option \<times> environ" where
  "secretKeysLoop ext osenv r d cp v [] e = (None, e)"
| "secretKeysLoop ext osenv r d cp v (key # keys) e =
     (case secretKey ext osenv r d cp key of
        Inl err \<Rightarrow> (Some err, e)
      | Inr k \<Rightarrow>
          (case v of
             JString val \<Rightarrow> secretKeysLoop ext osenv r d cp v keys (e(k \<mapsto> val))
           | _ \<Rightarrow> secretKeysLoop ext osenv r d cp v keys e))"

text \<open>The loop \<open>for originalKey, value := range valueMap\<close>, over the entries as visited.\<close>

fun appendSecretsLoop ::
  "externals \<Rightarrow> string list \<Rightarrow> runner \<Rightarrow> dependency \<Rightarrow> PrefixConfig \<Rightarrow> bool \<Rightarrow>
   (string \<rightharpoonup> KeyFormat list) \<Rightarrow> (string \<times> jvalue) list \<Rightarrow> environ \<Rightarrow>
   error option \<times> environ" where
  "appendSecretsLoop ext osenv r d cp pk kf [] e = (None, e)"
| "appendSecretsLoop ext osenv r d cp pk kf ((originalKey, v) # rest) e =
     (if blankKey ext originalKey then appendSecretsLoop ext osenv r d cp pk kf rest e
      else if v = JNil then appendSecretsLoop ext osenv r d cp pk kf rest e
      else (case perKeyKeys ext pk kf originalKey of
              Inl err \<Rightarrow> (Some err, e)
            | Inr None \<Rightarrow> appendSecretsLoop ext osenv r d cp pk kf rest e
            | Inr (Some keys) \<Rightarrow>
                (case secretKeysLoop ext osenv r d cp v keys e of
                   (Some err, e1) \<Rightarrow> (Some err, e1)
                 | (None, e1) \<Rightarrow> appendSecretsLoop ext osenv r d cp pk kf rest e1)))"

text \<open>
  \<open>appendSecrets\<close> for the \<open>i\<close>-th dependency. \<open>cp\<close> is nil when the dependency has no
  entry in \<open>configPrefixMap\<close>; \<open>cp.Keys\<close> then panics.
\<close>

definition appendSecrets ::
  "externals \<Rightarrow> string list \<Rightarrow> nat \<Rightarrow> runner \<Rightarrow> environ \<Rightarrow> dependency \<Rightarrow> payload \<Rightarrow>
   (error option \<times> environ) outcome" where
  "appendSecrets ext osenv i r e d dat =
     (case dat of
        SecretData dt \<Rightarrow>
          (case secretValueMap dt of
             Panic \<Rightarrow> Panic
           | Return valueMap \<Rightarrow>
               (case configPrefixMap r (depString d) of
                  None \<Rightarrow> Panic
                | Some cp \<Rightarrow>
                    (case (if Keys cp \<noteq> None \<and> \<not> StringPresent (Format cp)
                           then (case populateKeyFormats (the (Keys cp)) Map.empty of
                                   Panic \<Rightarrow> Panic
                                 | Return kf \<Rightarrow> Return (True, kf))
                           else Return (False, Map.empty)) of
                       Panic \<Rightarrow> Panic
                     | Return (pk, kf) \<Rightarrow>
                         Return (appendSecretsLoop ext osenv r d cp pk kf
                                   (rangeSecret ext i valueMap) e))))
      | _ \<Rightarrow> Return (Some (ErrConvertSecret (depString d)), e))"

subsection \<open>Services\<close>

text \<open>\<open>strconv.Itoa\<close> and \<open>strings.Join(tags, ",")\<close>.\<close>

fun digits :: "nat \<Rightarrow> string" where
  "digits n =
     (if n < 10 then [''0123456789'' ! n]
      else digits (n div 10) @ [''0123456789'' ! (n mod 10)])"

definition Itoa :: "int \<Rightarrow> string" where
  "Itoa i = (if i < 0 then CHR ''-'' # digits (nat (- i)) else digits (nat i))"

fun joinComma :: "string list \<Rightarrow> string" where
  "joinComma [] = []"
| "joinComma [t] = t"
| "joinComma (t # ts) = t @ '','' @ joinComma ts"

text \<open>The key of one of the five fields: the configured format, or \<open>name/field\<close>.\<close>

definition serviceKeyFormat ::
  "externals \<Rightarrow> ServiceConfig option \<Rightarrow> (ServiceConfig \<Rightarrow> string option) \<Rightarrow> string \<Rightarrow> string \<Rightarrow>
   error + string" where
  "serviceKeyFormat ext cs fld service key =
     (case cs of
        None \<Rightarrow> Inr (service @ ''/'' @ key)
      | Some c \<Rightarrow>
          if StringPresent (fld c)
          then applyServiceTemplate ext (StringVal (fld c)) service key
          else Inr (service @ ''/'' @ key))"

text \<open>The map \<open>serKV\<close> of one service, after its five assignments.\<close>

definition serviceKV ::
  "externals \<Rightarrow> ServiceConfig option \<Rightarrow> CatalogService \<Rightarrow> error + (string \<times> string) list" where
  "serviceKV ext cs ser =
     (case serviceKeyFormat ext cs FormatId (ServiceName ser) ''id'' of
        Inl err \<Rightarrow> Inl err
      | Inr k1 \<Rightarrow>
     (case serviceKeyFormat ext cs FormatName (ServiceName ser) ''name'' of
        Inl err \<Rightarrow> Inl err
      | Inr k2 \<Rightarrow>
     (case serviceKeyFormat ext cs FormatAddress (ServiceName ser) ''address'' of
        Inl err \<Rightarrow> Inl err
      | Inr k3 \<Rightarrow>
     (case serviceKeyFormat ext cs FormatTag (ServiceName ser) ''tag'' of
        Inl err \<Rightarrow> Inl err
      | Inr k4 \<Rightarrow>
     (case serviceKeyFormat ext cs FormatPort (ServiceName ser) ''port'' of
        Inl err \<Rightarrow> Inl err
      | Inr k5 \<Rightarrow>
          Inr (AList.update k5 (Itoa (ServicePort ser))
              (AList.update k4 (joinComma (ServiceTags ser))
              (AList.update k3 (ServiceAddress ser)
              (AList.update k2 (ServiceName ser)
              (AList.update k1 (ServiceID ser) []))))))))))"

text \<open>Upcase, then sanitize, and assign: the loop \<open>for key, value := range serKV\<close>.\<close>

definition serviceFinishKey :: "externals \<Rightarrow> Config \<Rightarrow> string \<Rightarrow> string" where
  "serviceFinishKey ext cfg key =
     (let key1 = (if BoolVal (Upcase cfg) then toUpper ext key else key)
      in if BoolVal (Sanitize cfg) then replaceInvalid key1 else key1)"

fun assignServiceKV ::
  "externals \<Rightarrow> Config \<Rightarrow> (string \<times> string) list \<Rightarrow> environ \<Rightarrow> environ" where
  "assignServiceKV ext cfg [] e = e"
| "assignServiceKV ext cfg ((key, v) # kvs) e =
     assignServiceKV ext cfg kvs (e(serviceFinishKey ext cfg key \<mapsto> v))"

fun appendServicesLoop ::
  "externals \<Rightarrow> runner \<Rightarrow> dependency \<Rightarrow> nat \<Rightarrow> nat \<Rightarrow> CatalogService list \<Rightarrow> environ \<Rightarrow>
   error option \<times> environ" where
  "appendServicesLoop ext r d i j [] e = (None, e)"
| "appendServicesLoop ext r d i j (ser # sers) e =
     (case serviceKV ext (configServiceMap r (depString d)) ser of
        Inl err \<Rightarrow> (Some err, e)
      | Inr serKV \<Rightarrow>
          appendServicesLoop ext r d i (Suc j) sers
            (assignServiceKV ext (config r) (rangeKV ext i j serKV) e))"

definition appendServices ::
  "externals \<Rightarrow> nat \<Rightarrow> runner \<Rightarrow> environ \<Rightarrow> dependency \<Rightarrow> payload \<Rightarrow>
   (error option \<times> environ) outcome" where
  "appendServices ext i r e d dat =
     (case dat of
        CatalogServices typed \<Rightarrow> Return (appendServicesLoop ext r d i 0 typed e)
      | _ \<Rightarrow> Return (Some (ErrConvertService (depString d)), e))"

subsection \<open>Run\<close>

text \<open>
  The first loop of \<open>Run\<close>, over the dependencies with their positions. The error that
  \<open>appendPrefixes\<close>, \<open>appendSecrets\<close> or \<open>appendServices\<close> returns is not looked at:
  the calls are statements, and the loop goes on with the map as they left it.
\<close>

datatype build = BuildPanic | MissingData | UnknownDependency error | Built environ

fun buildLoop ::
  "externals \<Rightarrow> string list \<Rightarrow> runner \<Rightarrow> (nat \<times> dependency) list \<Rightarrow> environ \<Rightarrow> build" where
  "buildLoop ext osenv r [] e = Built e"
| "buildLoop ext osenv r ((i, d) # ds) e =
     (case data r (depString d) of
        None \<Rightarrow> MissingData
      | Some dat \<Rightarrow>
          (case d of
             KVListQuery _ \<Rightarrow>
               (case appendPrefixes ext r e d dat of
                  Panic \<Rightarrow> BuildPanic
                | Return (_, e1) \<Rightarrow> buildLoop ext osenv r ds e1)
           | VaultReadQuery _ \<Rightarrow>
               (case appendSecrets ext osenv i r e d dat of
                  Panic \<Rightarrow> BuildPanic
                | Return (_, e1) \<Rightarrow> buildLoop ext osenv r ds e1)
           | CatalogServiceQuery _ \<Rightarrow>
               (case appendServices ext i r e d dat of
                  Panic \<Rightarrow> BuildPanic
                | Return (_, e1) \<Rightarrow> buildLoop ext osenv r ds e1)
           | OtherQuery _ \<Rightarrow> UnknownDependency (ErrUnknownDependency (depString d))))"

definition buildEnv :: "externals \<Rightarrow> string list \<Rightarrow> runner \<Rightarrow> build" where
  "buildEnv ext osenv r = buildLoop ext osenv r (enumerate 0 (dependencies r)) Map.empty"

definition stopChild :: "runner \<Rightarrow> runner" where
  "stopChild r = (if child r \<noteq> None then r\<lparr>trace := trace r @ [ChildStopped]\<rparr> else r)"

text \<open>\<open>len(m)\<close> of a map that may be nil.\<close>

definition len :: "environ option \<Rightarrow> nat" where
  "len m = (case m of None \<Rightarrow> 0 | Some e \<Rightarrow> card (dom e))"

text \<open>
  \<open>Run\<close> returns the new exit channel (here: whether there is one) and an error.
  \<open>reflect.DeepEqual\<close> of a nil map and an empty map is false, so the first run of a
  runner never takes the "environment was the same" return.
\<close>

datatype run_result = RunPanic | RunReturn runner bool "error option"

definition Run :: "externals \<Rightarrow> string list \<Rightarrow> runner \<Rightarrow> run_result" where
  "Run ext osenv r =
     (case buildEnv ext osenv r of
        BuildPanic \<Rightarrow> RunPanic
      | MissingData \<Rightarrow> RunReturn r False None
      | UnknownDependency err \<Rightarrow> RunReturn r False (Some err)
      | Built e \<Rightarrow>
          if len (env r) = len (Some e) \<and> env r = Some e then RunReturn r False None
          else
            let r1 = r\<lparr>env := Some e\<rparr>;
                r2 = (if child r1 \<noteq> None then stopChild r1 else r1)
            in (case (if \<not> BoolVal (Pristine (config r2))
                      then assignPairs Map.empty osenv else Return Map.empty) of
                  Panic \<Rightarrow> RunPanic
                | Return newEnv \<Rightarrow>
                    (case applyConfigEnv (globMatch ext) (ExecEnv (config r2)) (newEnv ++ e) of
                       Panic \<Rightarrow> RunPanic
                     | Return filteredEnv \<Rightarrow>
                         (case startChild ext filteredEnv of
                            Some err \<Rightarrow> RunReturn r2 False (Some err)
                          | None \<Rightarrow>
                              RunReturn
                                (r2\<lparr>child := Some filteredEnv,
                                    trace := trace r2 @ [ChildStarted filteredEnv]\<rparr>)
                                True None))))"

subsection \<open>init\<close>

text \<open>
  The three loops of \<open>init\<close>: prefixes, then services, then secrets. The configuration is
  the merged and finalized one; the constructors of the dependency library give the
  identity of a query or refuse the path.
\<close>

fun initPrefixes ::
  "externals \<Rightarrow> string list \<Rightarrow> PrefixConfig list \<Rightarrow> runner \<Rightarrow> error + runner" where
  "initPrefixes ext osenv [] r = Inr r"
| "initPrefixes ext osenv (p # ps) r =
     (case applyPathTemplate ext osenv (StringVal (Path p)) of
        Inl err \<Rightarrow> Inl err
      | Inr path \<Rightarrow>
          (case kvListQueryId ext path of
             Inl err \<Rightarrow> Inl err
           | Inr ident \<Rightarrow>
               initPrefixes ext osenv ps
                 (r\<lparr>dependencies := dependencies r @ [KVListQuery ident],
                    configPrefixMap := (configPrefixMap r)(ident \<mapsto> p)\<rparr>)))"

fun initServices :: "externals \<Rightarrow> ServiceConfig list \<Rightarrow> runner \<Rightarrow> error + runner" where
  "initServices ext [] r = Inr r"
| "initServices ext (s # ss) r =
     (case catalogServiceQueryId ext (StringVal (Query s)) of
        Inl err \<Rightarrow> Inl err
      | Inr ident \<Rightarrow>
          initServices ext ss
            (r\<lparr>dependencies := dependencies r @ [CatalogServiceQuery ident],
               configServiceMap := (configServiceMap r)(ident \<mapsto> s)\<rparr>))"

fun initSecrets ::
  "externals \<Rightarrow> string list \<Rightarrow> PrefixConfig list \<Rightarrow> runner \<Rightarrow> error + runner" where
  "initSecrets ext osenv [] r = Inr r"
| "initSecrets ext osenv (s # ss) r =
     (case applyPathTemplate ext osenv (StringVal (Path s)) of
        Inl err \<Rightarrow> Inl err
      | Inr path \<Rightarrow>
          (case vaultReadQueryId ext path of
             Inl err \<Rightarrow> Inl err
           | Inr ident \<Rightarrow>
               initSecrets ext osenv ss
                 (r\<lparr>dependencies := dependencies r @ [VaultReadQuery ident],
                    configPrefixMap := (configPrefixMap r)(ident \<mapsto> s)\<rparr>)))"

definition init :: "externals \<Rightarrow> string list \<Rightarrow> runner \<Rightarrow> error + runner" where
  "init ext osenv r =
     (case initPrefixes ext osenv (Prefixes (config r)) r of
        Inl err \<Rightarrow> Inl err
      | Inr r1 \<Rightarrow>
          (case initServices ext (Services (config r1)) r1 of
             Inl err \<Rightarrow> Inl err
           | Inr r2 \<Rightarrow> initSecrets ext osenv (Secrets (config r2)) r2))"

text \<open>The runner that \<open>NewRunner\<close> hands to \<open>init\<close>.\<close>

definition newRunner :: "Config \<Rightarrow> bool \<Rightarrow> runner" where
  "newRunner cfg o1 =
     \<lparr>config = cfg, configPrefixMap = Map.empty, configServiceMap = Map.empty,
      data = Map.empty, dependencies = [], env = None, once = o1, child = None,
      minTimer = None, maxTimer = None, trace = []\<rparr>"

subsection \<open>The event loop of Start\<close>

text \<open>
  One iteration of the \<open>for { select { ... } }\<close> of \<open>Start\<close>, at time \<open>now\<close>. The event
  is the case that \<open>select\<close> takes; a data event carries the datum received and those
  drained after it. \<open>xch\<close> says whether the local \<open>exitCh\<close> is a child's channel.
  A nil timer channel never fires: \<open>ready\<close> says which cases can be taken.
\<close>

datatype event =
    DataArrival "(dependency \<times> payload) list"
  | MinTimerFired
  | MaxTimerFired
  | WatcherError error
  | VaultWatcherError error
  | ChildExited int
  | DoneClosed

datatype loop_result = Continue runner bool | Stopped "error option" | LoopPanic

definition TimeDurationVal :: "int option \<Rightarrow> int" where
  "TimeDurationVal t = (case t of None \<Rightarrow> 0 | Some v \<Rightarrow> v)"

definition ready :: "int \<Rightarrow> runner \<Rightarrow> bool \<Rightarrow> event \<Rightarrow> bool" where
  "ready now r xch ev =
     (case ev of
        DataArrival ds \<Rightarrow> ds \<noteq> []
      | MinTimerFired \<Rightarrow> (case minTimer r of None \<Rightarrow> False | Some t \<Rightarrow> t \<le> now)
      | MaxTimerFired \<Rightarrow> (case maxTimer r of None \<Rightarrow> False | Some t \<Rightarrow> t \<le> now)
      | ChildExited _ \<Rightarrow> xch
      | _ \<Rightarrow> True)"

text \<open>The end of the loop body: \<open>r.Run()\<close>, and the new exit channel if there is one.\<close>

definition runAttempt :: "externals \<Rightarrow> string list \<Rightarrow> runner \<Rightarrow> bool \<Rightarrow> loop_result" where
  "runAttempt ext osenv r xch =
     (case Run ext osenv r of
        RunPanic \<Rightarrow> LoopPanic
      | RunReturn r1 nexit err \<Rightarrow>
          (case err of
             Some e \<Rightarrow> Stopped (Some e)
           | None \<Rightarrow> Continue r1 (if nexit then True else xch)))"

fun receiveAll :: "runner \<Rightarrow> (dependency \<times> payload) list \<Rightarrow> runner" where
  "receiveAll r [] = r"
| "receiveAll r ((d, dat) # ds) = receiveAll (Receive r d dat) ds"

definition loopStep ::
  "externals \<Rightarrow> string list \<Rightarrow> int \<Rightarrow> runner \<Rightarrow> bool \<Rightarrow> event \<Rightarrow> loop_result" where
  "loopStep ext osenv now r xch ev =
     (case ev of
        DataArrival ds \<Rightarrow>
          let r1 = receiveAll r ds
          in if BoolVal (Enabled (Wait (config r1))) then
               Continue
                 (r1\<lparr>minTimer := Some (now + TimeDurationVal (Min (Wait (config r1)))),
                     maxTimer := (if maxTimer r1 = None
                                  then Some (now + TimeDurationVal (Max (Wait (config r1))))
                                  else maxTimer r1)\<rparr>)
                 xch
             else runAttempt ext osenv r1 xch
      | MinTimerFired \<Rightarrow> runAttempt ext osenv (r\<lparr>minTimer := None, maxTimer := None\<rparr>) xch
      | MaxTimerFired \<Rightarrow> runAttempt ext osenv (r\<lparr>minTimer := None, maxTimer := None\<rparr>) xch
      | WatcherError err \<Rightarrow>
          if once r then Stopped (Some err) else runAttempt ext osenv r xch
      | VaultWatcherError err \<Rightarrow>
          if once r then Stopped (Some err) else runAttempt ext osenv r xch
      | ChildExited code \<Rightarrow>
          runAttempt ext osenv (r\<lparr>trace := trace r @ [ExitCodeSent code]\<rparr>) xch
      | DoneClosed \<Rightarrow> Stopped None)"

section \<open>Parsing a configuration\<close>

text \<open>
  What \<open>hcl.Decode\<close> gives: nil, a string, a map, a list of maps, or another value.
  The HCL decoder and the mapstructure decoder are external; the configuration they
  produce is of any type \<open>'c\<close>.
\<close>

datatype hval =
    HNil
  | HString string
  | HMap "(string \<times> hval) list"
  | HMaps "(string \<times> hval) list list"
  | HOther

record 'c decoders =
  hclDecode :: "string \<Rightarrow> hval option"
  newDecoder :: "error option"
  decode :: "(string \<times> hval) list \<Rightarrow> 'c option"

text \<open>
  \<open>flattenKeys\<close>: under a key of the list, a list of maps becomes its last map (nil when
  the list is empty), and the maps below are flattened in turn.
\<close>

fun flatten :: "string list \<Rightarrow> string \<Rightarrow> (string \<times> hval) list \<Rightarrow> (string \<times> hval) list"
  and flattenValue :: "string list \<Rightarrow> string \<Rightarrow> hval \<Rightarrow> hval"
  and flattenLast :: "string list \<Rightarrow> string \<Rightarrow> (string \<times> hval) list list \<Rightarrow> hval" where
  "flatten keys parent [] = []"
| "flatten keys parent ((k, v) # m) =
     (let mapKey = (if parent \<noteq> [] then parent @ ''.'' @ k else k)
      in (k, if mapKey \<in> set keys then flattenValue keys mapKey v else v)
           # flatten keys parent m)"
| "flattenValue keys mapKey (HMaps typed) = flattenLast keys mapKey typed"
| "flattenValue keys mapKey (HMap typed) = HMap (flatten keys mapKey typed)"
| "flattenValue keys mapKey HNil = HNil"
| "flattenValue keys mapKey (HString x) = HString x"
| "flattenValue keys mapKey HOther = HOther"
| "flattenLast keys mapKey [] = HNil"
| "flattenLast keys mapKey [l] = HMap (flatten keys mapKey l)"
| "flattenLast keys mapKey (l # l1 # ls) = flattenLast keys mapKey (l1 # ls)"

definition flattenKeys :: "(string \<times> hval) list \<Rightarrow> string list \<Rightarrow> (string \<times> hval) list" where
  "flattenKeys m keys = flatten keys [] m"

text \<open>\<open>parsed[k].(map[string]interface{})\<close>, with a new map when the assertion fails.\<close>

definition stanza :: "(string \<times> hval) list \<Rightarrow> string \<Rightarrow> (string \<times> hval) list" where
  "stanza parsed k = (case map_of parsed k of Some (HMap m) \<Rightarrow> m | _ \<Rightarrow> [])"

text \<open>The deprecated top-level keys, in the order of \<open>Parse\<close>.\<close>

definition deprecations :: "(string \<times> hval) list \<Rightarrow> (string \<times> hval) list" where
  "deprecations parsed0 =
     (let p1 = (case map_of parsed0 ''auth'' of
                  None \<Rightarrow> parsed0
                | Some auth \<Rightarrow>
                    AList.delete ''auth''
                      (AList.update ''consul''
                         (HMap (AList.update ''auth'' auth (stanza parsed0 ''consul''))) parsed0));
          p2 = (case map_of p1 ''path'' of
                  None \<Rightarrow> p1
                | Some path \<Rightarrow> AList.delete ''path'' p1);
          p3 = (case map_of p2 ''splay'' of
                  None \<Rightarrow> p2
                | Some splay \<Rightarrow>
                    AList.delete ''splay''
                      (AList.update ''exec''
                         (HMap (AList.update ''splay'' splay (stanza p2 ''exec''))) p2));
          p4 = (case map_of p3 ''retry'' of
                  None \<Rightarrow> p3
                | Some retry \<Rightarrow>
                    (let r = HMap [(''backoff'', retry), (''max_backoff'', retry)]
                     in AList.delete ''retry''
                          (AList.update ''vault''
                             (HMap (AList.update ''retry'' r (stanza p3 ''vault'')))
                             (AList.update ''consul''
                                (HMap (AList.update ''retry'' r (stanza p3 ''consul''))) p3))));
          p5 = (case map_of p4 ''ssl'' of
                  None \<Rightarrow> p4
                | Some ssl \<Rightarrow>
                    AList.delete ''ssl''
                      (AList.update ''vault''
                         (HMap (AList.update ''ssl'' ssl (stanza p4 ''vault'')))
                         (AList.update ''consul''
                            (HMap (AList.update ''ssl'' ssl (stanza p4 ''consul''))) p4)));
          p6 = (case map_of p5 ''timeout'' of
                  None \<Rightarrow> p5
                | Some timeout \<Rightarrow>
                    AList.delete ''timeout''
                      (AList.update ''exec''
                         (HMap (AList.update ''kill_timeout'' timeout (stanza p5 ''exec''))) p5))
      in (case map_of p6 ''token'' of
            None \<Rightarrow> p6
          | Some token \<Rightarrow>
              AList.delete ''token''
                (AList.update ''consul''
                   (HMap (AList.update ''token'' token (stanza p6 ''consul''))) p6)))"

text \<open>\<open>Parse\<close> returns a configuration (nil, here \<open>None\<close>, on every error) and an error.\<close>

definition Parse :: "'c decoders \<Rightarrow> string \<Rightarrow> 'c option \<times> error option" where
  "Parse dec s =
     (case hclDecode dec s of
        None \<Rightarrow> (None, Some ErrDecodingConfig)
      | Some shadow \<Rightarrow>
          (case shadow of
             HMap parsed0 \<Rightarrow>
               (let parsed =
                      deprecations
                        (flattenKeys
                           (flattenKeys parsed0
                              [''consul'', ''consul.auth'', ''consul.retry'', ''consul.ssl'',
                               ''consul.transport'', ''exec'', ''exec.env'', ''syslog'',
                               ''vault'', ''vault.retry'', ''vault.ssl'', ''vault.transport'',
                               ''wait''])
                           [''auth'', ''ssl''])
                in (case newDecoder dec of
                      Some err \<Rightarrow> (None, Some ErrDecoderCreation)
                    | None \<Rightarrow>
                        (case decode dec parsed of
                           None \<Rightarrow> (None, Some ErrMapstructureDecode)
                         | Some c \<Rightarrow> (Some c, None))))
           | _ \<Rightarrow> (None, Some ErrConvertingConfig)))"

text \<open>\<open>Must\<close> logs the error of \<open>Parse\<close>, if any, and returns the configuration of \<open>Parse\<close>.\<close>

definition Must :: "'c decoders \<Rightarrow> string \<Rightarrow> 'c option" where
  "Must dec s = (case Parse dec s of (c, err) \<Rightarrow> c)"

section \<open>An instance of the external collaborators and a configuration\<close>

text \<open>
  The instance used for the concrete runs below. Its template engines know the templates
  of the examples: \<open>{{key}}\<close> renders the key, \<open>{{\<close> does not parse (an action that is not
  closed), \<open>{{replaceKey}}\<close> and \<open>{{env}}\<close> parse and fail when executed, and a text without
  action renders as itself. Its matcher knows \<open>*\<close> and \<open>?\<close>, which match characters
  other than the separator \<open>/\<close>; the patterns of the examples have no class and no escape.
  Its \<open>ToUpper\<close> and \<open>TrimSpace\<close> are those of Go on ASCII strings, which is what the keys
  of the examples are: the letters a-z are made upper case, and tab, line feed, vertical
  tab, form feed, carriage return and space are trimmed. Every map is visited in the
  order of its list.
\<close>

fun exampleGlob :: "string \<Rightarrow> string \<Rightarrow> bool" where
  "exampleGlob [] s = (s = [])"
| "exampleGlob (p # ps) s =
     (if p = CHR ''*'' then
        (exampleGlob ps s \<or>
         (case s of [] \<Rightarrow> False | c # cs \<Rightarrow> c \<noteq> CHR ''/'' \<and> exampleGlob (p # ps) cs))
      else
        (case s of
           [] \<Rightarrow> False
         | c # cs \<Rightarrow> ((p = CHR ''?'' \<and> c \<noteq> CHR ''/'') \<or> p = c) \<and> exampleGlob ps cs))"

definition asciiUpper :: "char \<Rightarrow> char" where
  "asciiUpper c =
     (case map_of (zip ''abcdefghijklmnopqrstuvwxyz'' ''ABCDEFGHIJKLMNOPQRSTUVWXYZ'') c of
        None \<Rightarrow> c | Some u \<Rightarrow> u)"

definition exampleToUpper :: "string \<Rightarrow> string" where
  "exampleToUpper s = map asciiUpper s"

definition asciiSpace :: "char \<Rightarrow> bool" where
  "asciiSpace c \<longleftrightarrow> c \<in> set [CHR 0x09, CHR 0x0A, CHR 0x0B, CHR 0x0C, CHR 0x0D, CHR '' '']"

definition exampleTrimSpace :: "string \<Rightarrow> string" where
  "exampleTrimSpace s = rev (dropWhile asciiSpace (rev (dropWhile asciiSpace s)))"

definition exampleFormat :: "string \<Rightarrow> string \<Rightarrow> tmpl_result" where
  "exampleFormat contents key =
     (if contents = ''{{key}}'' then Renders key
      else if contents = ''{{'' then ParseFails
      else if contents = ''{{replaceKey}}'' then ExecFails
      else Renders contents)"

definition examplePath :: "string list \<Rightarrow> string \<Rightarrow> tmpl_result" where
  "examplePath osenv contents =
     (if contents = ''{{'' then ParseFails
      else if contents = ''{{env}}'' then ExecFails
      else Renders contents)"

definition exampleService :: "string \<Rightarrow> string \<Rightarrow> string \<Rightarrow> tmpl_result" where
  "exampleService contents service key =
     (if contents = ''{{'' then ParseFails else Renders contents)"

definition exampleExt :: externals where
  "exampleExt =
     \<lparr>fmtTemplate = exampleFormat, pathTemplate = examplePath,
      serviceTemplate = exampleService, globMatch = exampleGlob,
      toUpper = exampleToUpper, trimSpace = exampleTrimSpace,
      rangeSecret = (\<lambda>i m. m), rangeKV = (\<lambda>i j m. m),
      startChild = (\<lambda>e. None),
      kvListQueryId = (\<lambda>p. Inr (''kv.list('' @ p @ '')'')),
      catalogServiceQueryId = (\<lambda>p. Inr (''catalog.service('' @ p @ '')'')),
      vaultReadQueryId = (\<lambda>p. Inr (''vault.read('' @ p @ '')''))\<rparr>"

definition exampleEnvConfig :: EnvConfig where
  "exampleEnvConfig =
     \<lparr>Allowlist = [], AllowlistDeprecated = [], Denylist = [], DenylistDeprecated = [],
      Custom = [], EnvPristine = Some False\<rparr>"

definition exampleConfig :: Config where
  "exampleConfig =
     \<lparr>ExecEnv = exampleEnvConfig, Pristine = Some False, Sanitize = Some False,
      Upcase = Some False,
      Wait = \<lparr>Enabled = Some False, Min = Some 0, Max = Some 0\<rparr>,
      Prefixes = [], Services = [], Secrets = []\<rparr>"

definition examplePrefix :: "string \<Rightarrow> PrefixConfig" where
  "examplePrefix p = \<lparr>Format = Some [], NoPrefix = None, Path = Some p, Keys = None\<rparr>"

text \<open>A runner as \<open>NewRunner\<close> makes it from a configuration, and the predicates used below.\<close>

definition exampleRunner :: "Config \<Rightarrow> runner" where
  "exampleRunner cfg =
     (case init exampleExt [] (newRunner cfg False) of
        Inr r \<Rightarrow> r
      | Inl err \<Rightarrow> newRunner cfg False)"

definition isStringMap :: "jvalue \<Rightarrow> bool" where
  "isStringMap v = (case v of JMap m \<Rightarrow> True | _ \<Rightarrow> False)"

text \<open>
  The runners of the counterexamples. A runner with one key/value prefix \<open>app\<close> whose
  child runs with the key \<open>K\<close> of an earlier build, and which has now received data of
  the wrong shape. A runner with one prefix whose format is the given template, and one
  pair received. A runner with quiescence enabled (min 100, max 400).
\<close>

definition wrongShapeRunner :: runner where
  "wrongShapeRunner =
     (Receive (exampleRunner (exampleConfig\<lparr>Prefixes := [examplePrefix ''app'']\<rparr>))
        (KVListQuery ''kv.list(app)'') OtherData)
     \<lparr>env := Some [''K'' \<mapsto> ''v''],
      child := Some [''PATH'' \<mapsto> ''/bin'', ''K'' \<mapsto> ''v'']\<rparr>"

definition formatRunner :: "string \<Rightarrow> runner" where
  "formatRunner f =
     Receive
       (exampleRunner
          (exampleConfig\<lparr>Prefixes := [(examplePrefix ''app'')\<lparr>Format := Some f\<rparr>]\<rparr>))
       (KVListQuery ''kv.list(app)'') (KeyPairs [(''k'', ''v'')])"

definition waitRunner :: runner where
  "waitRunner =
     exampleRunner
       (exampleConfig\<lparr>Wait := \<lparr>Enabled = Some True, Min = Some 100, Max = Some 400\<rparr>,
                      Prefixes := [examplePrefix ''app'']\<rparr>)"

text \<open>
  The filter of the specification: the allowlist (both lists) is empty or one of its
  globs matches the key, and no glob of the denylist (both lists) matches it.
\<close>

definition passesFilters :: "(string \<Rightarrow> string \<Rightarrow> bool) \<Rightarrow> EnvConfig \<Rightarrow> string \<Rightarrow> bool" where
  "passesFilters glob ec K \<longleftrightarrow>
     (Allowlist ec @ AllowlistDeprecated ec = [] \<or>
      list_ex (\<lambda>p. glob p K) (Allowlist ec @ AllowlistDeprecated ec)) \<and>
     \<not> list_ex (\<lambda>p. glob p K) (Denylist ec @ DenylistDeprecated ec)"

text \<open>The environment of the child that a call of \<open>Run\<close> started, if it started one.\<close>

definition startedWith :: "run_result \<Rightarrow> environ option" where
  "startedWith res =
     (case res of
        RunReturn r1 True None \<Rightarrow> child r1
      | _ \<Rightarrow> None)"

text \<open>
  A runner with one key/value prefix \<open>app\<close>, the given settings of \<open>exec.env\<close> and of the
  top-level \<open>pristine\<close>, and the given pairs received; a runner without dependencies.
\<close>

definition kvRunner :: "EnvConfig \<Rightarrow> bool \<Rightarrow> (string \<times> string) list \<Rightarrow> runner" where
  "kvRunner ec p pairs =
     Receive
       (exampleRunner
          (exampleConfig\<lparr>ExecEnv := ec, Pristine := Some p,
                         Prefixes := [examplePrefix ''app'']\<rparr>))
       (KVListQuery ''kv.list(app)'') (KeyPairs pairs)"

definition plainRunner :: "EnvConfig \<Rightarrow> runner" where
  "plainRunner ec = exampleRunner (exampleConfig\<lparr>ExecEnv := ec\<rparr>)"

text \<open>
  What the \<open>j\<close>-th dependency emits on its own: the environment its append function
  makes from the empty one (empty when it has no data or panics). The rank of a
  dependency is the position of its kind in the registration order of \<open>init\<close>.
\<close>

definition emittedBy :: "externals \<Rightarrow> string list \<Rightarrow> runner \<Rightarrow> nat \<Rightarrow> environ" where
  "emittedBy ext osenv r j =
     (let d = dependencies r ! j
      in case data r (depString d) of
           None \<Rightarrow> Map.empty
         | Some dat \<Rightarrow>
             (case (case d of
                      KVListQuery _ \<Rightarrow> appendPrefixes ext r Map.empty d dat
                    | VaultReadQuery _ \<Rightarrow> appendSecrets ext osenv j r Map.empty d dat
                    | CatalogServiceQuery _ \<Rightarrow> appendServices ext j r Map.empty d dat
                    | OtherQuery _ \<Rightarrow> Panic) of
                Panic \<Rightarrow> Map.empty
              | Return (err, es) \<Rightarrow> es))"

fun kindRank :: "dependency \<Rightarrow> nat" where
  "kindRank (KVListQuery _) = 0"
| "kindRank (CatalogServiceQuery _) = 1"
| "kindRank (VaultReadQuery _) = 2"
| "kindRank (OtherQuery _) = 3"

text \<open>
  The configuration of the secret-over-KV scenario: a key/value prefix \<open>app\<close> and a
  secret \<open>secret/app\<close> with \<open>no_prefix\<close>, keys in upper case; and the data of both.
\<close>

definition tokenConfig :: Config where
  "tokenConfig =
     exampleConfig\<lparr>Upcase := Some True,
                   Prefixes := [examplePrefix ''app''],
                   Secrets := [(examplePrefix ''secret/app'')\<lparr>NoPrefix := Some True\<rparr>]\<rparr>"

definition tokenKV :: "dependency \<times> payload" where
  "tokenKV = (KVListQuery ''kv.list(app)'', KeyPairs [(''token'', ''wrong'')])"

definition tokenSecret :: "dependency \<times> payload" where
  "tokenSecret =
     (VaultReadQuery ''vault.read(secret/app)'', SecretData [(''token'', JString ''right'')])"

text \<open>
  The same scenario with two secrets, \<open>secret/a\<close> and \<open>secret/b\<close>, registered in this
  order, and the data of all three dependencies received.
\<close>

definition twoSecretsConfig :: Config where
  "twoSecretsConfig =
     exampleConfig\<lparr>Upcase := Some True,
                   Prefixes := [examplePrefix ''app''],
                   Secrets := [(examplePrefix ''secret/a'')\<lparr>NoPrefix := Some True\<rparr>,
                               (examplePrefix ''secret/b'')\<lparr>NoPrefix := Some True\<rparr>]\<rparr>"

definition twoSecretsRunner :: runner where
  "twoSecretsRunner =
     receiveAll (exampleRunner twoSecretsConfig)
       [tokenKV,
        (VaultReadQuery ''vault.read(secret/a)'', SecretData [(''token'', JString ''first'')]),
        (VaultReadQuery ''vault.read(secret/b)'', SecretData [(''token'', JString ''second'')])]"

text \<open>The value of a key in the environment that a build gives, if it gives one.\<close>

definition builtValue :: "build \<Rightarrow> string \<Rightarrow> string option" where
  "builtValue b K = (case b of Built e \<Rightarrow> e K | _ \<Rightarrow> None)"







section \<open>Properties\<close>

lemmas value_defs =
  BoolVal_def StringVal_def StringPresent_def replaceInvalid_def validChar_def
  exampleToUpper_def asciiUpper_def blankKey_def exampleTrimSpace_def asciiSpace_def
  splitEq_def index_def

lemmas run_defs =
  Run_def buildEnv_def appendPrefixes_def kvKey_def finishKey_def applyConfigEnv_def
  combineLists_def stopChild_def len_def Receive_def enumerate_eq_zip

lemmas example_defs =
  exampleExt_def exampleConfig_def exampleEnvConfig_def examplePrefix_def
  exampleFormat_def examplePath_def exampleService_def exampleRunner_def
  init_def newRunner_def applyFormatTemplate_def applyPathTemplate_def
  applyServiceTemplate_def

subsection \<open>Prefixing of key/value pairs\<close>

lemma map_add_single: "e ++ ([k \<mapsto> v] ++ m) = e(k \<mapsto> v) ++ m"
  by (rule ext) (simp add: map_add_def split: option.splits)

lemma kvKey_general:
  assumes "configPrefixMap r (depString d) = Some cp"
  shows "kvKey ext r d cp k =
     (case (if StringPresent (Format cp)
            then applyFormatTemplate ext (StringVal (Format cp))
                   (if NoPrefix cp = Some False
                    then replaceInvalid (StringVal (Path cp)) @ ''_'' @ k else k)
            else Inr (if NoPrefix cp = Some False
                      then replaceInvalid (StringVal (Path cp)) @ ''_'' @ k else k)) of
        Inl err \<Rightarrow> Inl err
      | Inr key \<Rightarrow> Inr (finishKey ext (config r) key))"
  using assms by (cases "NoPrefix cp") (auto simp: kvKey_def BoolVal_def)

lemma appendPrefixesLoop_general:
  fixes ext cp
  defines "F \<equiv> \<lambda>k. (if StringPresent (Format cp)
            then applyFormatTemplate ext (StringVal (Format cp))
                   (if NoPrefix cp = Some False
                    then replaceInvalid (StringVal (Path cp)) @ ''_'' @ k else k)
            else Inr (if NoPrefix cp = Some False
                      then replaceInvalid (StringVal (Path cp)) @ ''_'' @ k else k))"
  assumes cp: "configPrefixMap r (depString d) = Some cp"
  shows "appendPrefixesLoop ext r d (Some cp) pairs e =
     Return
       (case dropWhile (\<lambda>(k, v). \<not> isl (F k)) (filter (\<lambda>(k, v). \<not> blankKey ext k) pairs) of
          [] \<Rightarrow> None
        | (k, v) # rest \<Rightarrow> Some (projl (F k)),
        e ++ map_of (rev (map (\<lambda>(k, v). (finishKey ext (config r) (projr (F k)), v))
               (takeWhile (\<lambda>(k, v). \<not> isl (F k))
                  (filter (\<lambda>(k, v). \<not> blankKey ext k) pairs)))))"
proof (induction pairs arbitrary: e)
  case Nil
  then show ?case by simp
next
  case (Cons p pairs)
  obtain k v where p: "p = (k, v)" by (cases p)
  have key: "kvKey ext r d cp k =
      (case F k of Inl err \<Rightarrow> Inl err | Inr key \<Rightarrow> Inr (finishKey ext (config r) key))"
    unfolding F_def by (rule kvKey_general[OF cp])
  let ?live = "filter (\<lambda>(k, v). \<not> blankKey ext k) pairs"
  let ?M = "map_of (rev (map (\<lambda>(k, v). (finishKey ext (config r) (projr (F k)), v))
               (takeWhile (\<lambda>(k, v). \<not> isl (F k)) ?live)))"
  show ?case
  proof (cases "blankKey ext k")
    case True
    then show ?thesis by (simp add: Cons.IH p)
  next
    case False
    show ?thesis
    proof (cases "F k")
      case (Inl err)
      then show ?thesis by (simp add: p False key)
    next
      case (Inr key2)
      let ?K = "finishKey ext (config r) key2"
      have "appendPrefixesLoop ext r d (Some cp) (p # pairs) e =
            appendPrefixesLoop ext r d (Some cp) pairs (e(?K \<mapsto> v))"
        by (simp add: p False key Inr)
      also have "\<dots> =
         Return
           (case dropWhile (\<lambda>(k, v). \<not> isl (F k)) ?live of
              [] \<Rightarrow> None
            | (k, v) # rest \<Rightarrow> Some (projl (F k)),
            e(?K \<mapsto> v) ++ ?M)"
        by (rule Cons.IH)
      also have "e(?K \<mapsto> v) ++ ?M = e ++ ([?K \<mapsto> v] ++ ?M)"
        by (rule map_add_single[symmetric])
      finally show ?thesis by (simp add: p False Inr)
    qed
  qed
qed

text \<open>
  Claim C6, as amended. For the pairs of a key/value dependency with its prefix
  configuration: a pair with a blank key is skipped; the key of any other pair is
  prefixed as \<open>PATH_k\<close> (the path with its invalid characters replaced by \<open>_\<close>) exactly
  when \<open>no_prefix\<close> is set and false, and is \<open>k\<close> itself when \<open>no_prefix\<close> is unset, as
  when it is true; the format, if there is one, is then applied to it, and the result is
  sanitized and upcased. The pairs are assigned in order under these keys up to the
  first one whose format fails to execute, whose error is returned.
\<close>

theorem kv_prefix_only_when_no_prefix_is_false:
  assumes "configPrefixMap r (depString d) = Some cp"
  shows "appendPrefixes ext r e d (KeyPairs pairs) =
     (let prefixed = (\<lambda>k. if NoPrefix cp = Some False
                           then replaceInvalid (StringVal (Path cp)) @ ''_'' @ k else k);
          formatted = (\<lambda>k. if StringPresent (Format cp)
                            then applyFormatTemplate ext (StringVal (Format cp)) (prefixed k)
                            else Inr (prefixed k));
          live = filter (\<lambda>(k, v). \<not> blankKey ext k) pairs;
          emitted = takeWhile (\<lambda>(k, v). \<not> isl (formatted k)) live;
          failed = dropWhile (\<lambda>(k, v). \<not> isl (formatted k)) live
      in Return
           (case failed of [] \<Rightarrow> None | (k, v) # rest \<Rightarrow> Some (projl (formatted k)),
            e ++ map_of (rev (map (\<lambda>(k, v). (finishKey ext (config r) (projr (formatted k)), v))
                                emitted))))"
  unfolding Let_def
  by (simp add: appendPrefixes_def assms appendPrefixesLoop_general[OF assms])

theorem kv_prefix_only_when_no_prefix_is_false_witness:
  "appendPrefixes exampleExt
     (exampleRunner (exampleConfig\<lparr>Sanitize := Some True, Upcase := Some True, Prefixes :=
        [(examplePrefix ''foo/bar/baz'')\<lparr>NoPrefix := Some False\<rparr>]\<rparr>))
     Map.empty (KVListQuery ''kv.list(foo/bar/baz)'')
     (KeyPairs [(''k-1'', ''v''), ('' '', ''w'')])
   = Return (None, [''FOO_BAR_BAZ_K_1'' \<mapsto> ''v''])"
proof -
  let ?cp = "(examplePrefix ''foo/bar/baz'')\<lparr>NoPrefix := Some False\<rparr>"
  let ?r = "exampleRunner
    (exampleConfig\<lparr>Sanitize := Some True, Upcase := Some True, Prefixes := [?cp]\<rparr>)"
  have cp: "configPrefixMap ?r (depString (KVListQuery ''kv.list(foo/bar/baz)'')) = Some ?cp"
    by (simp add: example_defs value_defs)
  have flags: "Sanitize (config ?r) = Some True" "Upcase (config ?r) = Some True"
    by (simp_all add: example_defs value_defs)
  note inst = kv_prefix_only_when_no_prefix_is_false
      [OF cp, of exampleExt Map.empty "[(''k-1'', ''v''), ('' '', ''w'')]",
       unfolded Let_def finishKey_def flags]
  show ?thesis
    using inst by (simp add: examplePrefix_def exampleExt_def value_defs)
qed

theorem kv_unset_no_prefix_counterexample:
  "appendPrefixes exampleExt
     (exampleRunner (exampleConfig\<lparr>Prefixes := [examplePrefix ''app'']\<rparr>))
     Map.empty (KVListQuery ''kv.list(app)'') (KeyPairs [(''k'', ''v'')])
   = Return (None, [''k'' \<mapsto> ''v''])"
  by (simp add: appendPrefixes_def kvKey_def finishKey_def example_defs value_defs)

subsection \<open>Unchecked type assertions on a secret\<close>

text \<open>
  Claim C10. A secret whose \<open>metadata\<close> is present and is not a string-keyed map, or which
  is detected as KV-v2 and whose inner \<open>data\<close> is present and is not a string-keyed map,
  makes \<open>appendSecrets\<close> panic: it returns neither an error nor an environment.
\<close>

theorem appendSecrets_panics_on_unchecked_assertion:
  assumes "(index dt ''metadata'' \<noteq> JNil \<and> \<not> isStringMap (index dt ''metadata'')) \<or>
           (isVaultKv2 dt = Return True \<and> index dt ''data'' \<noteq> JNil \<and>
            \<not> isStringMap (index dt ''data''))"
  shows "appendSecrets ext osenv i r e d (SecretData dt) = Panic"
  using assms
  by (auto simp: appendSecrets_def secretValueMap_def isVaultKv2_def isStringMap_def
           split: jvalue.splits if_splits)

theorem appendSecrets_panics_on_unchecked_assertion_witness:
  "appendSecrets exampleExt [] 0 (exampleRunner exampleConfig) Map.empty
     (VaultReadQuery ''vault.read(secret/app)'')
     (SecretData [(''metadata'', JString ''v1'')]) = Panic \<and>
   appendSecrets exampleExt [] 0 (exampleRunner exampleConfig) Map.empty
     (VaultReadQuery ''vault.read(secret/app)'')
     (SecretData [(''metadata'', JMap [(''version'', JOther)]), (''data'', JString ''x'')])
     = Panic"
  using appendSecrets_panics_on_unchecked_assertion
      [of "[(''metadata'', JString ''v1'')]" exampleExt "[]" 0
          "exampleRunner exampleConfig" Map.empty "VaultReadQuery ''vault.read(secret/app)''"]
    appendSecrets_panics_on_unchecked_assertion
      [of "[(''metadata'', JMap [(''version'', JOther)]), (''data'', JString ''x'')]"
          exampleExt "[]" 0
          "exampleRunner exampleConfig" Map.empty "VaultReadQuery ''vault.read(secret/app)''"]
  by (simp add: index_def isStringMap_def isVaultKv2_def)

subsection \<open>Errors of a build\<close>

text \<open>
  Claim C3, on the code. The key/value dependency of \<open>wrongShapeRunner\<close> has data that is
  not a list of key pairs. \<open>appendPrefixes\<close> returns the conversion error, but \<open>Run\<close>
  does not abort: it returns no error, stops the running child and starts a new one with
  the environment built without that dependency.
\<close>

theorem wrong_shape_build_restarts_child:
  "appendPrefixes exampleExt wrongShapeRunner Map.empty (KVListQuery ''kv.list(app)'') OtherData
     = Return (Some (ErrConvertKeypair ''kv.list(app)''), Map.empty) \<and>
   Run exampleExt [''PATH=/bin''] wrongShapeRunner =
     RunReturn
       (wrongShapeRunner
          \<lparr>env := Some Map.empty, child := Some [''PATH'' \<mapsto> ''/bin''],
           trace := [ChildStopped, ChildStarted [''PATH'' \<mapsto> ''/bin'']]\<rparr>)
       True None"
  by (simp add: wrongShapeRunner_def run_defs example_defs value_defs)

text \<open>
  Claim C4, on the code. A format template that does not parse is no error: the key is
  the empty string, and \<open>Run\<close> starts the child with it. A format template that does not
  execute makes \<open>appendPrefixes\<close> return the error, but \<open>Run\<close> returns no error and
  starts the child.
\<close>

theorem template_failure_starts_child:
  "applyFormatTemplate exampleExt ''{{'' ''k'' = Inr [] \<and>
   Run exampleExt [] (formatRunner ''{{'') =
     RunReturn
       ((formatRunner ''{{'')
          \<lparr>env := Some [[] \<mapsto> ''v''], child := Some [[] \<mapsto> ''v''],
           trace := [ChildStarted [[] \<mapsto> ''v'']]\<rparr>)
       True None \<and>
   appendPrefixes exampleExt (formatRunner ''{{replaceKey}}'') Map.empty
       (KVListQuery ''kv.list(app)'') (KeyPairs [(''k'', ''v'')])
     = Return (Some ErrTemplateExec, Map.empty) \<and>
   Run exampleExt [] (formatRunner ''{{replaceKey}}'') =
     RunReturn
       ((formatRunner ''{{replaceKey}}'')
          \<lparr>env := Some Map.empty, child := Some Map.empty,
           trace := [ChildStarted Map.empty]\<rparr>)
       True None"
  by (simp add: formatRunner_def run_defs example_defs value_defs)

subsection \<open>Quiescence timers\<close>

lemma receiveAll_fields:
  "config (receiveAll r ds) = config r \<and> minTimer (receiveAll r ds) = minTimer r \<and>
   maxTimer (receiveAll r ds) = maxTimer r \<and> trace (receiveAll r ds) = trace r \<and>
   env (receiveAll r ds) = env r \<and> child (receiveAll r ds) = child r \<and>
   dependencies (receiveAll r ds) = dependencies r \<and>
   configPrefixMap (receiveAll r ds) = configPrefixMap r \<and>
   configServiceMap (receiveAll r ds) = configServiceMap r"
  by (induction r ds rule: receiveAll.induct) (simp_all add: Receive_def)

lemma Run_keeps_timers:
  assumes "Run ext osenv r = RunReturn r1 b err"
  shows "minTimer r1 = minTimer r \<and> maxTimer r1 = maxTimer r"
  using assms
  by (auto simp: Run_def stopChild_def Let_def
           split: build.splits if_splits outcome.splits option.splits)

lemma runAttempt_keeps_timers:
  assumes "runAttempt ext osenv r xch = Continue r1 x"
  shows "minTimer r1 = minTimer r \<and> maxTimer r1 = maxTimer r"
  using assms Run_keeps_timers
  by (auto simp: runAttempt_def split: run_result.splits option.splits)

text \<open>
  Claim C8. With quiescence enabled, a data arrival at time \<open>now\<close> stores the data, sets
  \<open>minTimer\<close> to fire at \<open>now + Wait.min\<close>, sets \<open>maxTimer\<close> to fire at
  \<open>now + Wait.max\<close> only if it is not armed, and goes back to \<open>select\<close> without a
  rebuild. When either timer fires, both timers are cleared and \<open>Run\<close> is called on the
  runner with the cleared timers: a panic of \<open>Run\<close> is a panic of the loop, an error of
  \<open>Run\<close> stops the loop, and otherwise the loop continues with the runner that \<open>Run\<close>
  returns, whose timers are still cleared, and with the new exit channel if \<open>Run\<close>
  started a child.
\<close>

theorem quiescence_timers:
  assumes "BoolVal (Enabled (Wait (config r)))"
  shows "loopStep ext osenv now r xch (DataArrival ds) =
           Continue ((receiveAll r ds)
             \<lparr>minTimer := Some (now + TimeDurationVal (Min (Wait (config r)))),
              maxTimer := (case maxTimer r of
                             None \<Rightarrow> Some (now + TimeDurationVal (Max (Wait (config r))))
                           | Some t \<Rightarrow> Some t)\<rparr>) xch \<and>
         (ev = MinTimerFired \<or> ev = MaxTimerFired \<longrightarrow>
           loopStep ext osenv now r xch ev =
             (case Run ext osenv (r\<lparr>minTimer := None, maxTimer := None\<rparr>) of
                RunPanic \<Rightarrow> LoopPanic
              | RunReturn r1 nexit err \<Rightarrow>
                  (case err of
                     Some er \<Rightarrow> Stopped (Some er)
                   | None \<Rightarrow> Continue r1 (if nexit then True else xch))) \<and>
           (\<forall>r1 x. loopStep ext osenv now r xch ev = Continue r1 x \<longrightarrow>
                    minTimer r1 = None \<and> maxTimer r1 = None))"
proof (intro conjI impI)
  show "loopStep ext osenv now r xch (DataArrival ds) =
           Continue ((receiveAll r ds)
             \<lparr>minTimer := Some (now + TimeDurationVal (Min (Wait (config r)))),
              maxTimer := (case maxTimer r of
                             None \<Rightarrow> Some (now + TimeDurationVal (Max (Wait (config r))))
                           | Some t \<Rightarrow> Some t)\<rparr>) xch"
    using assms by (simp add: loopStep_def receiveAll_fields split: option.splits)
next
  assume ev: "ev = MinTimerFired \<or> ev = MaxTimerFired"
  then have step: "loopStep ext osenv now r xch ev =
             runAttempt ext osenv (r\<lparr>minTimer := None, maxTimer := None\<rparr>) xch"
    by (auto simp: loopStep_def)
  then show "loopStep ext osenv now r xch ev =
             (case Run ext osenv (r\<lparr>minTimer := None, maxTimer := None\<rparr>) of
                RunPanic \<Rightarrow> LoopPanic
              | RunReturn r1 nexit err \<Rightarrow>
                  (case err of
                     Some er \<Rightarrow> Stopped (Some er)
                   | None \<Rightarrow> Continue r1 (if nexit then True else xch)))"
    by (simp add: runAttempt_def)
  show "\<forall>r1 x. loopStep ext osenv now r xch ev = Continue r1 x \<longrightarrow>
                    minTimer r1 = None \<and> maxTimer r1 = None"
    using runAttempt_keeps_timers[of ext osenv "r\<lparr>minTimer := None, maxTimer := None\<rparr>" xch]
    by (simp add: step)
qed

theorem quiescence_timers_witness:
  "loopStep exampleExt [] 0 waitRunner False
     (DataArrival [(KVListQuery ''kv.list(app)'', KeyPairs [(''k'', ''v'')])]) =
     Continue ((Receive waitRunner (KVListQuery ''kv.list(app)'') (KeyPairs [(''k'', ''v'')]))
                 \<lparr>minTimer := Some 100, maxTimer := Some 400\<rparr>) False \<and>
   loopStep exampleExt [] 50 (waitRunner\<lparr>minTimer := Some 100, maxTimer := Some 400\<rparr>) False
     (DataArrival [(KVListQuery ''kv.list(app)'', KeyPairs [(''k'', ''v'')])]) =
     Continue ((Receive (waitRunner\<lparr>minTimer := Some 100, maxTimer := Some 400\<rparr>)
                  (KVListQuery ''kv.list(app)'') (KeyPairs [(''k'', ''v'')]))
                 \<lparr>minTimer := Some 150, maxTimer := Some 400\<rparr>) False \<and>
   loopStep exampleExt [] 400
     ((Receive waitRunner (KVListQuery ''kv.list(app)'') (KeyPairs [(''k'', ''v'')]))
        \<lparr>minTimer := Some 280, maxTimer := Some 400\<rparr>) False MaxTimerFired =
     Continue ((Receive waitRunner (KVListQuery ''kv.list(app)'') (KeyPairs [(''k'', ''v'')]))
                 \<lparr>env := Some [''k'' \<mapsto> ''v''], child := Some [''k'' \<mapsto> ''v''],
                  minTimer := None, maxTimer := None,
                  trace := [ChildStarted [''k'' \<mapsto> ''v'']]\<rparr>) True"
proof -
  let ?d = "KVListQuery ''kv.list(app)''"
  let ?rd = "Receive waitRunner ?d (KeyPairs [(''k'', ''v'')])"
  have en: "BoolVal (Enabled (Wait (config waitRunner)))"
    by (simp add: waitRunner_def example_defs BoolVal_def)
  have mn: "TimeDurationVal (Min (Wait (config waitRunner))) = 100"
    and mx: "TimeDurationVal (Max (Wait (config waitRunner))) = 400"
    and tm: "minTimer waitRunner = None" "maxTimer waitRunner = None"
    by (simp_all add: waitRunner_def example_defs TimeDurationVal_def)
  have en': "BoolVal (Enabled (Wait (config (waitRunner\<lparr>minTimer := a, maxTimer := b\<rparr>))))" for a b
    using en by simp
  have en'': "BoolVal (Enabled (Wait (config (?rd\<lparr>minTimer := a, maxTimer := b\<rparr>))))" for a b
    using en by (simp add: Receive_def)
  note q1 = quiescence_timers
      [OF en, where ext = exampleExt and osenv = "[]" and now = 0
         and xch = False and ds = "[(?d, KeyPairs [(''k'', ''v'')])]"
         and ev = MinTimerFired, THEN conjunct1]
  note q2 = quiescence_timers
      [OF en'[where a = "Some 100" and b = "Some 400"], where ext = exampleExt and osenv = "[]" and now = 50
         and xch = False and ds = "[(?d, KeyPairs [(''k'', ''v'')])]"
         and ev = MinTimerFired, THEN conjunct1]
  note q3 = quiescence_timers
      [OF en''[where a = "Some 280" and b = "Some 400"], where ext = exampleExt and osenv = "[]" and now = 400
         and xch = False and ds = "[]" and ev = MaxTimerFired, THEN conjunct2, THEN mp,
       THEN conjunct1]
  have c1: "loopStep exampleExt [] 0 waitRunner False
     (DataArrival [(?d, KeyPairs [(''k'', ''v'')])]) =
     Continue (?rd\<lparr>minTimer := Some 100, maxTimer := Some 400\<rparr>) False"
    using q1 by (simp add: mn mx tm)
  have c2: "loopStep exampleExt [] 50 (waitRunner\<lparr>minTimer := Some 100, maxTimer := Some 400\<rparr>) False
     (DataArrival [(?d, KeyPairs [(''k'', ''v'')])]) =
     Continue ((Receive (waitRunner\<lparr>minTimer := Some 100, maxTimer := Some 400\<rparr>)
                  ?d (KeyPairs [(''k'', ''v'')]))
                 \<lparr>minTimer := Some 150, maxTimer := Some 400\<rparr>) False"
    using q2 by (simp add: mn mx)
  have run: "Run exampleExt [] (?rd\<lparr>minTimer := None, maxTimer := None\<rparr>) =
     RunReturn (?rd\<lparr>env := Some [''k'' \<mapsto> ''v''], child := Some [''k'' \<mapsto> ''v''],
                  minTimer := None, maxTimer := None,
                  trace := [ChildStarted [''k'' \<mapsto> ''v'']]\<rparr>) True None"
    by (simp add: waitRunner_def run_defs example_defs value_defs)
  have c3: "loopStep exampleExt [] 400 (?rd\<lparr>minTimer := Some 280, maxTimer := Some 400\<rparr>) False
     MaxTimerFired =
     Continue (?rd\<lparr>env := Some [''k'' \<mapsto> ''v''], child := Some [''k'' \<mapsto> ''v''],
                  minTimer := None, maxTimer := None,
                  trace := [ChildStarted [''k'' \<mapsto> ''v'']]\<rparr>) True"
    using q3 by (simp add: run)
  show ?thesis using c1 c2 c3 by blast
qed

subsection \<open>Must\<close>

text \<open>
  Claim C9, on the code. \<open>Must\<close> returns the configuration that \<open>Parse\<close> returns, and
  \<open>Parse\<close> returns nil together with every error. So \<open>Must\<close> returns a non-nil
  configuration exactly when \<open>Parse\<close> returns no error: on a text that \<open>Parse\<close> rejects,
  \<open>Must\<close> logs the error and returns nil, where its comment promises a configuration or
  a panic.
\<close>

theorem Must_returns_config_of_Parse:
  "Must dec s = fst (Parse dec s) \<and> (Must dec s \<noteq> None) = (snd (Parse dec s) = None)"
  by (simp add: Must_def Parse_def Let_def split: option.splits hval.splits prod.splits)

subsection \<open>The environment of the child\<close>

lemma anyGlobMatch_iff: "anyGlobMatch glob s ps \<longleftrightarrow> (\<exists>p\<in>set ps. glob p s)"
  by (induction ps) auto

lemma set_combineLists: "set (combineLists a b) = set a \<union> set b"
  by (auto simp: combineLists_def)

lemma combineLists_empty: "combineLists a b = [] \<longleftrightarrow> a = [] \<and> b = []"
  by (cases a; cases b) (auto simp: combineLists_def)

lemma applyConfigEnv_Return:
  assumes "assignPairs Map.empty (Custom ec) = Return custom"
  shows "applyConfigEnv glob ec e =
     Return (if BoolVal (EnvPristine ec) then custom
             else (\<lambda>K. if K \<in> dom custom then custom K
                       else if passesFilters glob ec K then e K else None))"
proof (cases "BoolVal (EnvPristine ec)")
  case True
  then show ?thesis by (simp add: applyConfigEnv_def assms)
next
  case False
  have "(e |` (if 0 < length (combineLists (Denylist ec) (DenylistDeprecated ec))
           then {k \<in> (if 0 < length (combineLists (Allowlist ec) (AllowlistDeprecated ec))
                       then {k \<in> dom e. anyGlobMatch glob k
                                          (combineLists (Allowlist ec) (AllowlistDeprecated ec))}
                       else dom e).
                 \<not> anyGlobMatch glob k (combineLists (Denylist ec) (DenylistDeprecated ec))}
           else (if 0 < length (combineLists (Allowlist ec) (AllowlistDeprecated ec))
                 then {k \<in> dom e. anyGlobMatch glob k
                                    (combineLists (Allowlist ec) (AllowlistDeprecated ec))}
                 else dom e))) ++ custom
        = (\<lambda>K. if K \<in> dom custom then custom K
                else if passesFilters glob ec K then e K else None)"
    by (rule ext)
       (auto simp: map_add_def restrict_map_def passesFilters_def anyGlobMatch_iff
          set_combineLists list_ex_iff combineLists_empty split: option.splits)
  then show ?thesis
    unfolding applyConfigEnv_def Let_def assms using False
    by (simp only: outcome.case if_False)
qed

lemma Run_started:
  assumes "Run ext osenv r = RunReturn r1 True None" and "buildEnv ext osenv r = Built emitted"
  shows "\<exists>base filtered.
           (if \<not> BoolVal (Pristine (config r)) then assignPairs Map.empty osenv
            else Return Map.empty) = Return base \<and>
           applyConfigEnv (globMatch ext) (ExecEnv (config r)) (base ++ emitted)
             = Return filtered \<and>
           child r1 = Some filtered"
  using assms
  by (auto simp: Run_def stopChild_def Let_def split: if_splits outcome.splits option.splits)

text \<open>
  Claim C1, as amended. When \<open>Run\<close> starts a child and neither \<open>pristine\<close> nor
  \<open>exec.env.pristine\<close> is set, the child's environment is: for a key of
  \<open>exec.env.custom\<close>, the custom value; for any other key, its value in the OS
  environment overlaid with the emitted environment if the key passes the filters (the
  allowlist is empty or one of its globs matches, and no glob of the denylist matches),
  and nothing otherwise. So an ambient key that is not custom appears if and only if it
  passes the filters, custom keys bypass the filters, and emitted keys are filtered like
  ambient ones.
\<close>

theorem allow_deny_filter_on_merged_environment:
  assumes "Run ext osenv r = RunReturn r1 True None"
    and "buildEnv ext osenv r = Built emitted"
    and "\<not> BoolVal (Pristine (config r))"
    and "\<not> BoolVal (EnvPristine (ExecEnv (config r)))"
    and "assignPairs Map.empty osenv = Return ambient"
    and "assignPairs Map.empty (Custom (ExecEnv (config r))) = Return custom"
  shows "child r1 =
     Some (\<lambda>K. if K \<in> dom custom then custom K
               else if passesFilters (globMatch ext) (ExecEnv (config r)) K
                    then (ambient ++ emitted) K else None)"
  using Run_started[OF assms(1,2)] assms(3-5) applyConfigEnv_Return[OF assms(6)]
  by auto

theorem allow_deny_filter_on_merged_environment_witness:
  "map_option (\<lambda>c. (c ''PATH'', c ''HOME'', c ''SECRET_A''))
     (startedWith (Run exampleExt [''PATH=/x'', ''SECRET_A=1'', ''HOME=/h'']
        (plainRunner
           (exampleEnvConfig\<lparr>Allowlist := [''PATH'', ''HOME''], Denylist := [''HO*'']\<rparr>))))
   = Some (Some ''/x'', None, None)"
proof -
  let ?ec = "exampleEnvConfig\<lparr>Allowlist := [''PATH'', ''HOME''], Denylist := [''HO*'']\<rparr>"
  let ?r = "plainRunner ?ec"
  let ?os = "[''PATH=/x'', ''SECRET_A=1'', ''HOME=/h'']"
  have "\<exists>r1. Run exampleExt ?os ?r = RunReturn r1 True None"
    by (simp add: plainRunner_def run_defs example_defs value_defs)
  then obtain r1 where run: "Run exampleExt ?os ?r = RunReturn r1 True None" ..
  have build: "buildEnv exampleExt ?os ?r = Built Map.empty"
    by (simp add: plainRunner_def run_defs example_defs)
  have p1: "\<not> BoolVal (Pristine (config ?r))"
    and p2: "\<not> BoolVal (EnvPristine (ExecEnv (config ?r)))"
    by (simp_all add: plainRunner_def example_defs BoolVal_def)
  have amb: "assignPairs Map.empty ?os =
      Return [''PATH'' \<mapsto> ''/x'', ''SECRET_A'' \<mapsto> ''1'', ''HOME'' \<mapsto> ''/h'']"
    by (simp add: splitEq_def)
  have cus: "assignPairs Map.empty (Custom (ExecEnv (config ?r))) = Return Map.empty"
    by (simp add: plainRunner_def example_defs)
  show ?thesis
    using allow_deny_filter_on_merged_environment[OF run build p1 p2 amb cus] run
    by (simp add: startedWith_def passesFilters_def plainRunner_def example_defs)
qed

theorem emitted_key_is_filtered_counterexample:
  "buildEnv exampleExt [''PATH=/x'']
      (kvRunner (exampleEnvConfig\<lparr>Denylist := [''TOKEN'']\<rparr>) False [(''TOKEN'', ''t'')])
     = Built [''TOKEN'' \<mapsto> ''t''] \<and>
   map_option (\<lambda>c. (c ''TOKEN'', c ''PATH''))
     (startedWith (Run exampleExt [''PATH=/x'']
        (kvRunner (exampleEnvConfig\<lparr>Denylist := [''TOKEN'']\<rparr>) False [(''TOKEN'', ''t'')])))
     = Some (None, Some ''/x'')"
  by (simp add: kvRunner_def startedWith_def run_defs example_defs value_defs)

text \<open>
  Claim C2, as amended. When \<open>Run\<close> starts a child in pristine mode, the child's
  environment has no key of the OS environment. With \<open>exec.env.pristine\<close> set it is
  exactly the custom entries: the emitted entries are dropped as well. With only the
  top-level \<open>pristine\<close> set it is the emitted entries that pass the allow and deny
  filters, overlaid with the custom entries; with empty lists, the emitted environment
  overlaid with the custom entries.
\<close>

theorem pristine_child_environment:
  assumes "Run ext osenv r = RunReturn r1 True None"
    and "buildEnv ext osenv r = Built emitted"
    and "assignPairs Map.empty (Custom (ExecEnv (config r))) = Return custom"
    and "BoolVal (Pristine (config r)) \<or> BoolVal (EnvPristine (ExecEnv (config r)))"
  shows "child r1 =
     Some (if BoolVal (EnvPristine (ExecEnv (config r))) then custom
           else (\<lambda>K. if K \<in> dom custom then custom K
                     else if passesFilters (globMatch ext) (ExecEnv (config r)) K
                          then emitted K else None)) \<and>
     (\<not> BoolVal (EnvPristine (ExecEnv (config r))) \<and>
      Allowlist (ExecEnv (config r)) @ AllowlistDeprecated (ExecEnv (config r)) = [] \<and>
      Denylist (ExecEnv (config r)) @ DenylistDeprecated (ExecEnv (config r)) = []
      \<longrightarrow> child r1 = Some (emitted ++ custom))"
proof -
  have main: "child r1 =
     Some (if BoolVal (EnvPristine (ExecEnv (config r))) then custom
           else (\<lambda>K. if K \<in> dom custom then custom K
                     else if passesFilters (globMatch ext) (ExecEnv (config r)) K
                          then emitted K else None))"
    using Run_started[OF assms(1,2)] assms(4) applyConfigEnv_Return[OF assms(3)]
    by (auto split: if_splits)
  have "child r1 = Some (emitted ++ custom)"
    if "\<not> BoolVal (EnvPristine (ExecEnv (config r)))"
      and "Allowlist (ExecEnv (config r)) @ AllowlistDeprecated (ExecEnv (config r)) = []"
      and "Denylist (ExecEnv (config r)) @ DenylistDeprecated (ExecEnv (config r)) = []"
  proof -
    have "passesFilters (globMatch ext) (ExecEnv (config r)) K" for K
      using that(2,3) by (simp add: passesFilters_def)
    then have "child r1 = Some (\<lambda>K. if K \<in> dom custom then custom K else emitted K)"
      using main that(1) by (simp cong: if_cong)
    moreover have "(\<lambda>K. if K \<in> dom custom then custom K else emitted K) = emitted ++ custom"
      by (rule ext) (auto simp: map_add_def split: option.splits)
    ultimately show ?thesis by simp
  qed
  then show ?thesis
    using main by blast
qed

theorem pristine_child_environment_witness:
  "map_option (\<lambda>c. (c ''k'', c ''A'', c ''PATH''))
     (startedWith (Run exampleExt [''PATH=/x'']
        (kvRunner (exampleEnvConfig\<lparr>Custom := [''A=1'']\<rparr>) True [(''k'', ''v'')])))
   = Some (Some ''v'', Some ''1'', None)"
proof -
  let ?r = "kvRunner (exampleEnvConfig\<lparr>Custom := [''A=1'']\<rparr>) True [(''k'', ''v'')]"
  let ?os = "[''PATH=/x'']"
  have "\<exists>r1. Run exampleExt ?os ?r = RunReturn r1 True None"
    by (simp add: kvRunner_def run_defs example_defs value_defs)
  then obtain r1 where run: "Run exampleExt ?os ?r = RunReturn r1 True None" ..
  have build: "buildEnv exampleExt ?os ?r = Built [''k'' \<mapsto> ''v'']"
    by (simp add: kvRunner_def run_defs example_defs value_defs)
  have cfg: "Pristine (config ?r) = Some True"
    "ExecEnv (config ?r) = exampleEnvConfig\<lparr>Custom := [''A=1'']\<rparr>"
    by (simp_all add: kvRunner_def example_defs Receive_def)
  have p: "BoolVal (Pristine (config ?r)) \<or> BoolVal (EnvPristine (ExecEnv (config ?r)))"
    by (simp add: cfg BoolVal_def)
  have cus: "assignPairs Map.empty (Custom (ExecEnv (config ?r))) = Return [''A'' \<mapsto> ''1'']"
    by (simp add: cfg splitEq_def)
  have ep: "\<not> BoolVal (EnvPristine exampleEnvConfig)"
    by (simp add: exampleEnvConfig_def BoolVal_def)
  have flt: "passesFilters (globMatch exampleExt) (exampleEnvConfig\<lparr>Custom := [''A=1'']\<rparr>) K"
    for K by (simp add: passesFilters_def exampleEnvConfig_def)
  have "child r1 = Some (\<lambda>K. if K \<in> dom [''A'' \<mapsto> ''1''] then [''A'' \<mapsto> ''1''] K
                              else [''k'' \<mapsto> ''v''] K)"
    using pristine_child_environment[OF run build cus p, THEN conjunct1, unfolded cfg]
    by (simp add: flt ep cong: if_cong)
  moreover have "startedWith (Run exampleExt ?os ?r) = child r1"
    by (simp only: run startedWith_def run_result.case bool.case option.case if_True)
  ultimately show ?thesis by simp
qed

theorem pristine_drops_emitted_counterexample:
  "buildEnv exampleExt [''PATH=/x'']
      (kvRunner (exampleEnvConfig\<lparr>EnvPristine := Some True\<rparr>) True [(''k'', ''v'')])
     = Built [''k'' \<mapsto> ''v''] \<and>
   map_option (\<lambda>c. c ''k'')
     (startedWith (Run exampleExt [''PATH=/x'']
        (kvRunner (exampleEnvConfig\<lparr>EnvPristine := Some True\<rparr>) True [(''k'', ''v'')])))
     = Some None \<and>
   map_option (\<lambda>c. c ''k'')
     (startedWith (Run exampleExt [''PATH=/x'']
        (kvRunner (exampleEnvConfig\<lparr>Denylist := [''k'']\<rparr>) True [(''k'', ''v'')])))
     = Some None"
  by (simp add: kvRunner_def startedWith_def run_defs example_defs value_defs)

subsection \<open>Registration order\<close>

lemma initPrefixes_dependencies:
  assumes "initPrefixes ext osenv ps r = Inr r1"
  shows "\<exists>ks. dependencies r1 = dependencies r @ map KVListQuery ks \<and> config r1 = config r"
  using assms
proof (induction ps arbitrary: r)
  case Nil
  then show ?case by simp
next
  case (Cons p ps)
  from Cons.prems obtain path ident where
    rec: "initPrefixes ext osenv ps
            (r\<lparr>dependencies := dependencies r @ [KVListQuery ident],
               configPrefixMap := (configPrefixMap r)(ident \<mapsto> p)\<rparr>) = Inr r1"
    by (auto split: sum.splits)
  from Cons.IH[OF rec] obtain ks where
    "dependencies r1 = (dependencies r @ [KVListQuery ident]) @ map KVListQuery ks"
    "config r1 = config r" by auto
  then have "dependencies r1 = dependencies r @ map KVListQuery (ident # ks) \<and> config r1 = config r"
    by simp
  then show ?case by blast
qed

lemma initServices_dependencies:
  assumes "initServices ext ss r = Inr r1"
  shows "\<exists>ks. dependencies r1 = dependencies r @ map CatalogServiceQuery ks \<and> config r1 = config r"
  using assms
proof (induction ss arbitrary: r)
  case Nil
  then show ?case by simp
next
  case (Cons s ss)
  from Cons.prems obtain ident where
    rec: "initServices ext ss
            (r\<lparr>dependencies := dependencies r @ [CatalogServiceQuery ident],
               configServiceMap := (configServiceMap r)(ident \<mapsto> s)\<rparr>) = Inr r1"
    by (auto split: sum.splits)
  from Cons.IH[OF rec] obtain ks where
    "dependencies r1 = (dependencies r @ [CatalogServiceQuery ident]) @ map CatalogServiceQuery ks"
    "config r1 = config r" by auto
  then have "dependencies r1 = dependencies r @ map CatalogServiceQuery (ident # ks) \<and> config r1 = config r"
    by simp
  then show ?case by blast
qed

lemma initSecrets_dependencies:
  assumes "initSecrets ext osenv ps r = Inr r1"
  shows "\<exists>ks. dependencies r1 = dependencies r @ map VaultReadQuery ks \<and> config r1 = config r"
  using assms
proof (induction ps arbitrary: r)
  case Nil
  then show ?case by simp
next
  case (Cons p ps)
  from Cons.prems obtain path ident where
    rec: "initSecrets ext osenv ps
            (r\<lparr>dependencies := dependencies r @ [VaultReadQuery ident],
               configPrefixMap := (configPrefixMap r)(ident \<mapsto> p)\<rparr>) = Inr r1"
    by (auto split: sum.splits)
  from Cons.IH[OF rec] obtain ks where
    "dependencies r1 = (dependencies r @ [VaultReadQuery ident]) @ map VaultReadQuery ks"
    "config r1 = config r" by auto
  then have "dependencies r1 = dependencies r @ map VaultReadQuery (ident # ks) \<and> config r1 = config r"
    by simp
  then show ?case by blast
qed

lemma init_registration_order:
  assumes "init ext osenv (newRunner cfg o1) = Inr r"
  shows "sorted (map kindRank (dependencies r)) \<and> (\<forall>d\<in>set (dependencies r). kindRank d \<le> 2)"
proof -
  from assms obtain r1 r2 where
    a: "initPrefixes ext osenv (Prefixes cfg) (newRunner cfg o1) = Inr r1" and
    b: "initServices ext (Services (config r1)) r1 = Inr r2" and
    c: "initSecrets ext osenv (Secrets (config r2)) r2 = Inr r"
    by (auto simp: init_def newRunner_def split: sum.splits)
  from initPrefixes_dependencies[OF a] initServices_dependencies[OF b]
    initSecrets_dependencies[OF c]
  obtain ks ss vs where
    "dependencies r = map KVListQuery ks @ map CatalogServiceQuery ss @ map VaultReadQuery vs"
    by (auto simp: newRunner_def)
  then show ?thesis
    by (auto simp: sorted_append sorted_map  o_def)
qed

subsection \<open>What a dependency writes does not depend on the map it writes to\<close>

lemma secretKeysLoop_env:
  "\<exists>err w. \<forall>e. secretKeysLoop ext osenv r d cp v keys e = (err, e ++ w)"
proof (induction keys)
  case Nil
  have "\<forall>e. secretKeysLoop ext osenv r d cp v [] e = (None, e ++ Map.empty)" by simp
  then show ?case by blast
next
  case (Cons key keys)
  then obtain err w where IH: "\<And>e. secretKeysLoop ext osenv r d cp v keys e = (err, e ++ w)"
    by blast
  show ?case
  proof (cases "secretKey ext osenv r d cp key")
    case (Inl err1)
    then have "\<forall>e. secretKeysLoop ext osenv r d cp v (key # keys) e = (Some err1, e ++ Map.empty)"
      by simp
    then show ?thesis by blast
  next
    case (Inr k)
    show ?thesis
    proof (cases v)
      case (JString val)
      have "\<forall>e. secretKeysLoop ext osenv r d cp v (key # keys) e = (err, e ++ ([k \<mapsto> val] ++ w))"
        using IH by (simp add: Inr JString map_add_single)
      then show ?thesis by blast
    next
      case JNil
      then have "\<forall>e. secretKeysLoop ext osenv r d cp v (key # keys) e = (err, e ++ w)"
        using IH by (simp add: Inr)
      then show ?thesis by blast
    next
      case (JMap m)
      then have "\<forall>e. secretKeysLoop ext osenv r d cp v (key # keys) e = (err, e ++ w)"
        using IH by (simp add: Inr)
      then show ?thesis by blast
    next
      case JOther
      then have "\<forall>e. secretKeysLoop ext osenv r d cp v (key # keys) e = (err, e ++ w)"
        using IH by (simp add: Inr)
      then show ?thesis by blast
    qed
  qed
qed

lemma appendSecretsLoop_env:
  "\<exists>err w. \<forall>e. appendSecretsLoop ext osenv r d cp pk kf entries e = (err, e ++ w)"
proof (induction entries)
  case Nil
  have "\<forall>e. appendSecretsLoop ext osenv r d cp pk kf [] e = (None, e ++ Map.empty)" by simp
  then show ?case by blast
next
  case (Cons entry entries)
  then obtain err w where
    IH: "\<And>e. appendSecretsLoop ext osenv r d cp pk kf entries e = (err, e ++ w)"
    by blast
  obtain originalKey v where entry: "entry = (originalKey, v)" by (cases entry)
  show ?case
  proof (cases "blankKey ext originalKey \<or> v = JNil")
    case True
    then have "\<forall>e. appendSecretsLoop ext osenv r d cp pk kf (entry # entries) e = (err, e ++ w)"
      using IH by (auto simp: entry)
    then show ?thesis by blast
  next
    case False
    show ?thesis
    proof (cases "perKeyKeys ext pk kf originalKey")
      case (Inl err1)
      then have "\<forall>e. appendSecretsLoop ext osenv r d cp pk kf (entry # entries) e =
                   (Some err1, e ++ Map.empty)"
        using False by (simp add: entry)
      then show ?thesis by blast
    next
      case (Inr ko)
      show ?thesis
      proof (cases ko)
        case None
        then have "\<forall>e. appendSecretsLoop ext osenv r d cp pk kf (entry # entries) e =
                     (err, e ++ w)"
          using False Inr by (simp add: entry IH)
        then show ?thesis by blast
      next
        case (Some keys)
        obtain kerr kw where
          K: "\<And>e. secretKeysLoop ext osenv r d cp v keys e = (kerr, e ++ kw)"
          using secretKeysLoop_env[of ext osenv r d cp v keys] by blast
        show ?thesis
        proof (cases kerr)
          case (Some err1)
          then have "\<forall>e. appendSecretsLoop ext osenv r d cp pk kf (entry # entries) e =
                       (Some err1, e ++ kw)"
            using False Inr \<open>ko = Some keys\<close> by (simp add: entry K)
          then show ?thesis by blast
        next
          case None
          then have "\<forall>e. appendSecretsLoop ext osenv r d cp pk kf (entry # entries) e =
                       (err, e ++ (kw ++ w))"
            using False Inr \<open>ko = Some keys\<close> by (simp add: entry K IH)
          then show ?thesis by blast
        qed
      qed
    qed
  qed
qed

lemma appendSecrets_env:
  "(\<forall>e. appendSecrets ext osenv i r e d dat = Panic) \<or>
   (\<exists>err w. \<forall>e. appendSecrets ext osenv i r e d dat = Return (err, e ++ w))"
proof (cases "appendSecrets ext osenv i r Map.empty d dat")
  case Panic
  then have "\<forall>e. appendSecrets ext osenv i r e d dat = Panic"
    by (auto simp: appendSecrets_def split: payload.splits outcome.splits option.splits
          if_splits prod.splits)
  then show ?thesis by blast
next
  case (Return res)
  show ?thesis
  proof (cases "\<exists>dt. dat = SecretData dt")
    case False
    then have "\<forall>e. appendSecrets ext osenv i r e d dat =
                 Return (Some (ErrConvertSecret (depString d)), e ++ Map.empty)"
      by (cases dat) (simp_all add: appendSecrets_def)
    then show ?thesis by blast
  next
    case True
    then obtain dt where dat: "dat = SecretData dt" ..
    from Return obtain valueMap cp pk kf where
      "\<And>e. appendSecrets ext osenv i r e d dat =
            Return (appendSecretsLoop ext osenv r d cp pk kf (rangeSecret ext i valueMap) e)"
      by (auto simp: appendSecrets_def dat split: outcome.splits option.splits if_splits
            prod.splits)
    moreover obtain err w where
      "\<And>e. appendSecretsLoop ext osenv r d cp pk kf (rangeSecret ext i valueMap) e =
            (err, e ++ w)"
      using appendSecretsLoop_env[of ext osenv r d cp pk kf "rangeSecret ext i valueMap"]
      by blast
    ultimately have "\<forall>e. appendSecrets ext osenv i r e d dat = Return (err, e ++ w)"
      by simp
    then show ?thesis by blast
  qed
qed

subsection \<open>The last writer of a key\<close>

lemma buildLoop_append:
  "buildLoop ext osenv r (xs @ ys) e =
     (case buildLoop ext osenv r xs e of
        Built e1 \<Rightarrow> buildLoop ext osenv r ys e1
      | BuildPanic \<Rightarrow> BuildPanic
      | MissingData \<Rightarrow> MissingData
      | UnknownDependency err \<Rightarrow> UnknownDependency err)"
proof (induction xs arbitrary: e)
  case Nil
  show ?case by simp
next
  case (Cons x xs)
  obtain i d where x: "x = (i, d)" by (cases x)
  show ?case
    by (cases d)
       (simp_all add: x Cons.IH split: option.splits outcome.splits prod.splits)
qed

lemma buildLoop_later_secrets:
  assumes "buildLoop ext osenv r post e1 = Built e"
    and "\<forall>(l, d)\<in>set post. \<exists>s. d = VaultReadQuery s \<and>
           (\<forall>dat err es. data r s = Some dat \<longrightarrow>
              appendSecrets ext osenv l r Map.empty d dat = Return (err, es) \<longrightarrow> es K = None)"
  shows "e K = e1 K"
  using assms
proof (induction post arbitrary: e1)
  case Nil
  then show ?case by simp
next
  case (Cons x post)
  obtain l d where x: "x = (l, d)" by (cases x)
  from Cons.prems(2) obtain s where d: "d = VaultReadQuery s" and
    silent: "\<And>dat err es. data r s = Some dat \<Longrightarrow>
              appendSecrets ext osenv l r Map.empty d dat = Return (err, es) \<Longrightarrow> es K = None"
    by (auto simp: x)
  from Cons.prems(1) obtain dat where dat: "data r s = Some dat"
    by (auto simp: x d split: option.splits)
  from Cons.prems(1) obtain err e2 where
    step: "appendSecrets ext osenv l r e1 d dat = Return (err, e2)" and
    rest: "buildLoop ext osenv r post e2 = Built e"
    by (auto simp: x d dat split: outcome.splits)
  from appendSecrets_env[of ext osenv l r d dat] step obtain err1 w where
    w: "\<And>e0. appendSecrets ext osenv l r e0 d dat = Return (err1, e0 ++ w)"
    by auto
  have "appendSecrets ext osenv l r Map.empty d dat = Return (err1, w)"
    using w[of Map.empty] by simp
  then have "w K = None" by (rule silent[OF dat])
  moreover have "e2 = e1 ++ w" using step w[of e1] by simp
  ultimately have "e2 K = e1 K" by (simp add: map_add_def)
  moreover have "e K = e2 K"
    using Cons.IH[OF rest] Cons.prems(2) by (simp add: x)
  ultimately show ?case by simp
qed

lemma enumerate_split:
  assumes "j < length xs"
  shows "enumerate 0 xs =
     enumerate 0 (take j xs) @ (j, xs ! j) # enumerate (Suc j) (drop (Suc j) xs)"
proof -
  have "xs = take j xs @ xs ! j # drop (Suc j) xs"
    using assms by (rule id_take_nth_drop)
  then have "enumerate 0 xs = enumerate 0 (take j xs @ xs ! j # drop (Suc j) xs)"
    by simp
  also have "\<dots> = enumerate 0 (take j xs) @ (j, xs ! j) # enumerate (Suc j) (drop (Suc j) xs)"
    using assms by (simp add: enumerate_append_eq min_def)
  finally show ?thesis .
qed

text \<open>
  Claim C5, as amended. The dependencies are those registered by \<open>init\<close>, and the data
  has arrived in any order. If a build gives an environment, a key/value dependency is at
  position \<open>i\<close> and a secret at position \<open>j\<close>, the secret emits the key \<open>K\<close> with value
  \<open>v\<close>, and no dependency registered after that secret emits \<open>K\<close>, then the key/value
  dependency comes before the secret and the environment has \<open>v\<close> at \<open>K\<close>, whatever the
  key/value dependency emits. A secret registered later that emits \<open>K\<close> overrides both.
\<close>

theorem secret_overrides_kv_in_registration_order:
  assumes "init ext osenv0 (newRunner cfg o1) = Inr r0"
    and "r = receiveAll r0 arrivals"
    and "buildEnv ext osenv r = Built e"
    and "i < length (dependencies r)" and "dependencies r ! i = KVListQuery kid"
    and "j < length (dependencies r)" and "dependencies r ! j = VaultReadQuery sid"
    and "emittedBy ext osenv r j K = Some v"
    and "\<forall>l. j < l \<and> l < length (dependencies r) \<longrightarrow> emittedBy ext osenv r l K = None"
  shows "i < j \<and> e K = Some v"
proof -
  let ?deps = "dependencies r"
  have deps: "?deps = dependencies r0"
    by (simp add: assms(2) receiveAll_fields)
  have order: "sorted (map kindRank ?deps)" and kinds: "\<forall>d\<in>set ?deps. kindRank d \<le> 2"
    using init_registration_order[OF assms(1)] by (simp_all add: deps)
  have rank_mono: "kindRank (?deps ! a) \<le> kindRank (?deps ! b)"
    if "a \<le> b" "b < length ?deps" for a b
    using order that sorted_nth_mono[of "map kindRank ?deps" a b] by simp
  have ij: "i < j"
  proof (rule ccontr)
    assume "\<not> i < j"
    then have "kindRank (?deps ! j) \<le> kindRank (?deps ! i)"
      using rank_mono[of j i] assms(4) by simp
    then show False by (simp add: assms(5,7))
  qed
  have later: "\<exists>s. ?deps ! l = VaultReadQuery s" if "j < l" "l < length ?deps" for l
  proof -
    have "2 \<le> kindRank (?deps ! l)"
      using rank_mono[of j l] that by (simp add: assms(7))
    moreover have "kindRank (?deps ! l) \<le> 2"
      using kinds that(2) by simp
    ultimately show ?thesis by (cases "?deps ! l") simp_all
  qed
  let ?pre = "enumerate 0 (take j ?deps)"
  let ?post = "enumerate (Suc j) (drop (Suc j) ?deps)"
  have split: "enumerate 0 ?deps = ?pre @ (j, VaultReadQuery sid) # ?post"
    using enumerate_split[OF assms(6)] by (simp add: assms(7))
  from assms(3) obtain e1 where
    pre: "buildLoop ext osenv r ?pre Map.empty = Built e1" and
    rest: "buildLoop ext osenv r ((j, VaultReadQuery sid) # ?post) e1 = Built e"
    by (auto simp: buildEnv_def split buildLoop_append split: build.splits)
  from rest obtain dat where dat: "data r sid = Some dat"
    by (auto split: option.splits)
  from rest obtain err e2 where
    step: "appendSecrets ext osenv j r e1 (VaultReadQuery sid) dat = Return (err, e2)" and
    post: "buildLoop ext osenv r ?post e2 = Built e"
    by (auto simp: dat split: outcome.splits)
  from appendSecrets_env[of ext osenv j r "VaultReadQuery sid" dat] step obtain err1 w where
    w: "\<And>e0. appendSecrets ext osenv j r e0 (VaultReadQuery sid) dat = Return (err1, e0 ++ w)"
    by auto
  have "emittedBy ext osenv r j = w"
    using w[of Map.empty] by (simp add: emittedBy_def assms(7) dat)
  then have "w K = Some v" using assms(8) by simp
  moreover have "e2 = e1 ++ w" using step w[of e1] by simp
  ultimately have e2: "e2 K = Some v" by (simp add: map_add_def)
  have "\<forall>(l, d)\<in>set ?post. \<exists>s. d = VaultReadQuery s \<and>
           (\<forall>dat err es. data r s = Some dat \<longrightarrow>
              appendSecrets ext osenv l r Map.empty d dat = Return (err, es) \<longrightarrow> es K = None)"
  proof (clarify)
    fix l d
    assume "(l, d) \<in> set ?post"
    then have l: "j < l" "l < length ?deps" and d: "d = ?deps ! l"
      by (auto simp: in_set_enumerate_eq)
    from later[OF l] obtain s where s: "?deps ! l = VaultReadQuery s" ..
    have "es K = None"
      if "data r s = Some dat1" "appendSecrets ext osenv l r Map.empty d dat1 = Return (err2, es)"
      for dat1 err2 es
    proof -
      have "emittedBy ext osenv r l = es"
        using that by (simp add: emittedBy_def s d)
      then show ?thesis using assms(9) l by auto
    qed
    then show "\<exists>s. d = VaultReadQuery s \<and>
           (\<forall>dat err es. data r s = Some dat \<longrightarrow>
              appendSecrets ext osenv l r Map.empty d dat = Return (err, es) \<longrightarrow> es K = None)"
      using s d by auto
  qed
  from buildLoop_later_secrets[OF post this] e2 have "e K = Some v" by simp
  with ij show ?thesis by simp
qed

lemmas secret_defs =
  appendSecrets_def secretValueMap_def isVaultKv2_def perKeyKeys_def secretKey_def

theorem secret_overrides_kv_in_registration_order_witness:
  "builtValue (buildEnv exampleExt [] (receiveAll (exampleRunner tokenConfig)
       [tokenKV, tokenSecret])) ''TOKEN'' = Some ''right'' \<and>
   builtValue (buildEnv exampleExt [] (receiveAll (exampleRunner tokenConfig)
       [tokenSecret, tokenKV])) ''TOKEN'' = Some ''right''"
proof -
  let ?r0 = "exampleRunner tokenConfig"
  have "\<exists>r0. init exampleExt [] (newRunner tokenConfig False) = Inr r0"
    by (simp add: tokenConfig_def example_defs value_defs)
  then have i0: "init exampleExt [] (newRunner tokenConfig False) = Inr ?r0"
    by (auto simp: exampleRunner_def)
  have deps: "dependencies ?r0 =
      [KVListQuery ''kv.list(app)'', VaultReadQuery ''vault.read(secret/app)'']"
    and cfgs: "configPrefixMap ?r0 ''kv.list(app)'' = Some (examplePrefix ''app'')"
      "configPrefixMap ?r0 ''vault.read(secret/app)'' =
         Some ((examplePrefix ''secret/app'')\<lparr>NoPrefix := Some True\<rparr>)"
      "config ?r0 = tokenConfig"
    and d0: "data ?r0 = Map.empty"
    by (simp_all add: tokenConfig_def example_defs value_defs)
  have goal: "builtValue (buildEnv exampleExt [] (receiveAll ?r0 arrivals)) ''TOKEN'' = Some ''right''"
    if b: "\<exists>e. buildEnv exampleExt [] (receiveAll ?r0 arrivals) = Built e"
      and em: "emittedBy exampleExt [] (receiveAll ?r0 arrivals) 1 ''TOKEN'' = Some ''right''"
    for arrivals
  proof -
    from b obtain e where e: "buildEnv exampleExt [] (receiveAll ?r0 arrivals) = Built e" ..
    have d: "dependencies (receiveAll ?r0 arrivals) = dependencies ?r0"
      by (simp add: receiveAll_fields)
    have nol: "\<forall>l. 1 < l \<and> l < length (dependencies (receiveAll ?r0 arrivals)) \<longrightarrow>
        emittedBy exampleExt [] (receiveAll ?r0 arrivals) l ''TOKEN'' = None"
      by (simp add: d deps) arith
    have "0 < (1::nat) \<and> e ''TOKEN'' = Some ''right''"
      by (rule secret_overrides_kv_in_registration_order[OF i0 refl e _ _ _ _ em nol, of 0 "''kv.list(app)''"
            "''vault.read(secret/app)''"])
         (simp_all add: d deps)
    then show ?thesis by (simp add: e builtValue_def)
  qed
  have fields: "dependencies (receiveAll ?r0 arrivals) = dependencies ?r0"
    "configPrefixMap (receiveAll ?r0 arrivals) = configPrefixMap ?r0"
    "config (receiveAll ?r0 arrivals) = config ?r0" for arrivals
    by (simp_all add: receiveAll_fields)
  have data: "data (receiveAll ?r0 [tokenKV, tokenSecret]) =
      [''kv.list(app)'' \<mapsto> KeyPairs [(''token'', ''wrong'')],
       ''vault.read(secret/app)'' \<mapsto> SecretData [(''token'', JString ''right'')]]"
    "data (receiveAll ?r0 [tokenSecret, tokenKV]) =
      [''vault.read(secret/app)'' \<mapsto> SecretData [(''token'', JString ''right'')],
       ''kv.list(app)'' \<mapsto> KeyPairs [(''token'', ''wrong'')]]"
    by (simp_all add: tokenKV_def tokenSecret_def Receive_def d0)
  have flags: "Sanitize tokenConfig = Some False" "Upcase tokenConfig = Some True"
    by (simp_all add: tokenConfig_def exampleConfig_def)
  show ?thesis
    by (intro conjI goal)
       (simp_all add: buildEnv_def emittedBy_def fields data deps cfgs flags
        enumerate_eq_zip appendPrefixes_def kvKey_def finishKey_def secret_defs
        examplePrefix_def exampleExt_def value_defs)
qed

theorem later_secret_overrides_secret_counterexample:
  "dependencies twoSecretsRunner =
     [KVListQuery ''kv.list(app)'', VaultReadQuery ''vault.read(secret/a)'',
      VaultReadQuery ''vault.read(secret/b)''] \<and>
   emittedBy exampleExt [] twoSecretsRunner 0 ''TOKEN'' = Some ''wrong'' \<and>
   emittedBy exampleExt [] twoSecretsRunner 1 ''TOKEN'' = Some ''first'' \<and>
   builtValue (buildEnv exampleExt [] twoSecretsRunner) ''TOKEN'' = Some ''second''"
proof -
  let ?r0 = "exampleRunner twoSecretsConfig"
  have deps: "dependencies ?r0 =
      [KVListQuery ''kv.list(app)'', VaultReadQuery ''vault.read(secret/a)'',
       VaultReadQuery ''vault.read(secret/b)'']"
    and cfgs: "configPrefixMap ?r0 ''kv.list(app)'' = Some (examplePrefix ''app'')"
      "configPrefixMap ?r0 ''vault.read(secret/a)'' =
         Some ((examplePrefix ''secret/a'')\<lparr>NoPrefix := Some True\<rparr>)"
      "configPrefixMap ?r0 ''vault.read(secret/b)'' =
         Some ((examplePrefix ''secret/b'')\<lparr>NoPrefix := Some True\<rparr>)"
      "config ?r0 = twoSecretsConfig"
    and d0: "data ?r0 = Map.empty"
    by (simp_all add: twoSecretsConfig_def example_defs value_defs)
  have fields: "dependencies twoSecretsRunner = dependencies ?r0"
    "configPrefixMap twoSecretsRunner = configPrefixMap ?r0"
    "config twoSecretsRunner = config ?r0"
    by (simp_all add: twoSecretsRunner_def receiveAll_fields)
  have data: "data twoSecretsRunner =
      [''kv.list(app)'' \<mapsto> KeyPairs [(''token'', ''wrong'')],
       ''vault.read(secret/a)'' \<mapsto> SecretData [(''token'', JString ''first'')],
       ''vault.read(secret/b)'' \<mapsto> SecretData [(''token'', JString ''second'')]]"
    by (simp add: twoSecretsRunner_def tokenKV_def Receive_def d0)
  have flags: "Sanitize twoSecretsConfig = Some False" "Upcase twoSecretsConfig = Some True"
    by (simp_all add: twoSecretsConfig_def exampleConfig_def)
  show ?thesis
    by (intro conjI)
       (simp_all add: buildEnv_def builtValue_def emittedBy_def fields data deps cfgs flags
        enumerate_eq_zip appendPrefixes_def kvKey_def finishKey_def secret_defs
        examplePrefix_def exampleExt_def value_defs)
qed

subsection \<open>The order of visiting maps\<close>



























end
